theory Spec2Isabelle
  imports Complex_Main "HOL-Library.AList" "HOL-Library.Code_Target_Nat"
begin

section \<open>Python strings\<close>

text \<open>
  A Python \<open>str\<close> is a sequence of code points. The strings that the validators and
  the normaliser inspect are modelled as \<^typ>\<open>string\<close> with one \<^typ>\<open>char\<close> per code
  point, the code points U+0000 to U+00FF: on this range the character tables of CPython
  (\<open>str.isspace\<close>, \<open>str.isdigit\<close>, \<open>str.isdecimal\<close>, \<open>str.lower\<close>) are written out
  in full below. Code points above U+00FF are outside the model of user input.
\<close>

definition ord :: "char \<Rightarrow> nat" where
  "ord c = of_char c"

definition py_isspace :: "char \<Rightarrow> bool" where
  \<comment> \<open>\<open>str.isspace\<close> on one character, also the class \<open>\s\<close> of \<open>re\<close>.\<close>
  "py_isspace c =
     (let n = ord c in (9 \<le> n \<and> n \<le> 13) \<or> (28 \<le> n \<and> n \<le> 32) \<or> n = 133 \<or> n = 160)"

definition py_isdecimal :: "char \<Rightarrow> bool" where
  \<comment> \<open>\<open>str.isdecimal\<close> on one character, also the class \<open>\d\<close> of \<open>re\<close>.\<close>
  "py_isdecimal c = (let n = ord c in 48 \<le> n \<and> n \<le> 57)"

definition py_isdigit_char :: "char \<Rightarrow> bool" where
  \<comment> \<open>\<open>str.isdigit\<close> on one character: the decimal digits and the superscripts
      U+00B2, U+00B3, U+00B9.\<close>
  "py_isdigit_char c = (let n = ord c in (48 \<le> n \<and> n \<le> 57) \<or> n = 178 \<or> n = 179 \<or> n = 185)"

definition py_isdigit :: "string \<Rightarrow> bool" where
  "py_isdigit s = (s \<noteq> [] \<and> list_all py_isdigit_char s)"

definition py_lower_char :: "char \<Rightarrow> char" where
  "py_lower_char c =
     (let n = ord c in
      if (65 \<le> n \<and> n \<le> 90) \<or> (192 \<le> n \<and> n \<le> 214) \<or> (216 \<le> n \<and> n \<le> 222)
      then char_of (n + 32) else c)"

definition py_lower :: "string \<Rightarrow> string" where
  "py_lower s = map py_lower_char s"

definition py_strip :: "string \<Rightarrow> string" where
  \<comment> \<open>\<open>s.strip()\<close>: leading and trailing whitespace removed.\<close>
  "py_strip s = rev (dropWhile py_isspace (rev (dropWhile py_isspace s)))"

fun split_from :: "string \<Rightarrow> string \<Rightarrow> string list" where
  "split_from tok [] = (if tok = [] then [] else [tok])"
| "split_from tok (c # cs) =
     (if py_isspace c then (if tok = [] then split_from [] cs else tok # split_from [] cs)
      else split_from (tok @ [c]) cs)"

definition py_split :: "string \<Rightarrow> string list" where
  \<comment> \<open>\<open>s.split()\<close>: the maximal runs of characters that are not whitespace.\<close>
  "py_split s = split_from [] s"

definition py_replace_char :: "char \<Rightarrow> string \<Rightarrow> string \<Rightarrow> string" where
  \<comment> \<open>\<open>s.replace(old, new)\<close> for a pattern \<open>old\<close> of one character.\<close>
  "py_replace_char old new s = concat (map (\<lambda>c. if c = old then new else [c]) s)"

subsection \<open>Regular expressions\<close>

text \<open>
  The two patterns of the source are sequences of character classes, each taken once
  (\<open>\d\<close>, a literal) or one or more times (\<open>[^@\s]+\<close>). \<open>re.fullmatch\<close> succeeds when
  some way of cutting the whole string matches the sequence.
\<close>

datatype atom = One "char \<Rightarrow> bool" | Plus "char \<Rightarrow> bool"

fun fullmatch :: "atom list \<Rightarrow> string \<Rightarrow> bool" where
  "fullmatch [] s = (s = [])"
| "fullmatch (One p # r) [] = False"
| "fullmatch (One p # r) (c # cs) = (p c \<and> fullmatch r cs)"
| "fullmatch (Plus p # r) [] = False"
| "fullmatch (Plus p # r) (c # cs) = (p c \<and> (fullmatch r cs \<or> fullmatch (Plus p # r) cs))"

subsection \<open>Integers and their decimal form\<close>

text \<open>
  \<open>int(s)\<close> and \<open>str(i)\<close> in base 10. Python's integers are unbounded, as \<^typ>\<open>int\<close> is.
  The cap that newer interpreters put on the number of digits of a literal
  (\<open>sys.set_int_max_str_digits\<close>) is a setting of the interpreter and is not modelled.
\<close>

datatype py_error = ValueError | BadFile

definition int_isspace :: "char \<Rightarrow> bool" where
  \<comment> \<open>The whitespace \<open>int()\<close> skips around a number: the ASCII blanks, and the
      whitespace above U+007F (which it first turns into a blank).\<close>
  "int_isspace c = (let n = ord c in (9 \<le> n \<and> n \<le> 13) \<or> n = 32 \<or> n = 133 \<or> n = 160)"

definition digit_val :: "char \<Rightarrow> nat" where
  "digit_val c = ord c - 48"

fun int_digits :: "bool \<Rightarrow> nat \<Rightarrow> string \<Rightarrow> nat option" where
  \<comment> \<open>The digits of a literal, left to right, with single underscores between digits.
      The flag says that the character before was a digit.\<close>
  "int_digits after_digit acc [] = (if after_digit then Some acc else None)"
| "int_digits after_digit acc (c # cs) =
     (if py_isdecimal c then int_digits True (acc * 10 + digit_val c) cs
      else if c = CHR ''_'' \<and> after_digit then int_digits False acc cs
      else None)"

definition py_int :: "string \<Rightarrow> py_error + int" where
  \<comment> \<open>\<open>int(s)\<close> in base 10: blanks around, an optional sign, digits. Anything else
      raises \<open>ValueError\<close>.\<close>
  "py_int s =
     (let t = rev (dropWhile int_isspace (rev (dropWhile int_isspace s)));
          neg = (t \<noteq> [] \<and> hd t = CHR ''-'');
          body = (if t \<noteq> [] \<and> (hd t = CHR ''-'' \<or> hd t = CHR ''+'') then tl t else t)
      in case int_digits False 0 body of
           None \<Rightarrow> Inl ValueError
         | Some n \<Rightarrow> Inr (if neg then - int n else int n))"

fun str_nat :: "nat \<Rightarrow> string" where
  "str_nat n = (if n < 10 then [char_of (48 + n)] else str_nat (n div 10) @ [char_of (48 + n mod 10)])"

declare str_nat.simps [simp del]

definition py_str :: "int \<Rightarrow> string" where
  \<comment> \<open>\<open>str(i)\<close>: the decimal form, no leading zeros.\<close>
  "py_str i = (if i < 0 then CHR ''-'' # str_nat (nat (- i)) else str_nat (nat i))"


section \<open>The funnel of questions\<close>

text \<open>
  Text that is only shown (the transcript, the greeting) is a list of code points, so that
  the two symbols of the source above U+00FF (the warning sign and the check mark) can be
  written; \<open>cps\<close> reads a string of the input range as such a list.
\<close>

type_synonym texto = "nat list"

definition cps :: "string \<Rightarrow> texto" where
  "cps s = map ord s"

definition MIN_TIME_BETWEEN_REQUESTS :: int where
  \<comment> \<open>\<open>datetime.timedelta(seconds=1)\<close>, in microseconds, the resolution of \<open>datetime\<close>.\<close>
  "MIN_TIME_BETWEEN_REQUESTS = 1000000"

definition PERGUNTAS :: "(string \<times> string) list" where
  "PERGUNTAS =
  [(''nome'',
      ''Qual '' @ [CHR 0xE9] @ '' o seu nome completo?''),
   (''telefone'',
      ''Informe seu telefone com DDD (11 d'' @ [CHR 0xED] @ ''gitos, ex: 11987654321):''),
   (''email'',
      ''Qual '' @ [CHR 0xE9] @ '' o seu e-mail?''),
   (''operacao'',
      ''Voc'' @ [CHR 0xEA] @ '' deseja comprar ou alugar? (Digite 1 para Compra ou 2 para Aluguel)''),
   (''tipo_imovel'',
      ''Qual tipo de im'' @ [CHR 0xF3] @ ''vel voc'' @ [CHR 0xEA] @ '' procura? (casa, apartamento ou outro)''),
   (''metragem'',
      ''Qual a metragem desejada? (apenas n'' @ [CHR 0xFA] @ ''meros, ex: 80)''),
   (''quartos'',
      ''Quantos quartos voc'' @ [CHR 0xEA] @ '' deseja? (apenas n'' @ [CHR 0xFA] @ ''meros)''),
   (''faixa_preco'',
      ''Qual a faixa de pre'' @ [CHR 0xE7] @ ''o que voc'' @ [CHR 0xEA] @ '' tem em mente? (responda livremente)''),
   (''urgencia'',
      ''Qual '' @ [CHR 0xE9] @ '' a urg'' @ [CHR 0xEA] @ ''ncia da sua busca? (alta, m'' @ [CHR 0xE9] @ ''dia, baixa)'')]"

subsection \<open>Validators\<close>

text \<open>Lines 60 to 91 of \<open>streamlit_app.py\<close>.\<close>

definition validar_nome :: "string \<Rightarrow> bool" where
  "validar_nome nome = (length (py_split nome) \<ge> 2)"

definition validar_telefone :: "string \<Rightarrow> bool" where
  \<comment> \<open>\<open>re.fullmatch(r"\d{11}", telefone)\<close>\<close>
  "validar_telefone telefone = fullmatch (replicate 11 (One py_isdecimal)) telefone"

definition email_char :: "char \<Rightarrow> bool" where
  \<comment> \<open>the class \<open>[^@\s]\<close>\<close>
  "email_char c = (c \<noteq> CHR ''@'' \<and> \<not> py_isspace c)"

definition validar_email :: "string \<Rightarrow> bool" where
  \<comment> \<open>\<open>re.fullmatch(r"[^@\s]+@[^@\s]+\.[^@\s]+", email)\<close>\<close>
  "validar_email email =
     fullmatch [Plus email_char, One (\<lambda>c. c = CHR ''@''), Plus email_char,
                One (\<lambda>c. c = CHR ''.''), Plus email_char] email"

definition validar_operacao :: "string \<Rightarrow> bool" where
  "validar_operacao op = (py_strip op \<in> set [''1'', ''2''])"

definition validar_tipo_imovel :: "string \<Rightarrow> bool" where
  "validar_tipo_imovel tipo = (py_lower (py_strip tipo) \<in> set [''casa'', ''apartamento'', ''outro''])"

definition validar_numero :: "string \<Rightarrow> bool" where
  "validar_numero valor = py_isdigit (py_strip valor)"

definition validar_urgencia :: "string \<Rightarrow> bool" where
  "validar_urgencia u =
     (py_lower (py_strip u) \<in> set [''alta'', ''media'', ''m'' @ [CHR 0xE9] @ ''dia'', ''baixa''])"

definition VALIDADORES :: "(string \<times> (string \<Rightarrow> bool)) list" where
  "VALIDADORES =
  [(''nome'', validar_nome),
   (''telefone'', validar_telefone),
   (''email'', validar_email),
   (''operacao'', validar_operacao),
   (''tipo_imovel'', validar_tipo_imovel),
   (''metragem'', validar_numero),
   (''quartos'', validar_numero),
   (''urgencia'', validar_urgencia)]"

subsection \<open>Normaliser\<close>

text \<open>Lines 94 to 102. \<open>int\<close> may raise; the other branches return.\<close>

definition normalizar_campo :: "string \<Rightarrow> string \<Rightarrow> py_error + string" where
  "normalizar_campo chave valor =
     (let v = py_strip valor in
      if chave = ''operacao'' then Inr (if v = ''1'' then ''compra'' else ''aluguel'')
      else if chave = ''urgencia'' then
        Inr (if py_lower v \<in> set [''media'', ''m'' @ [CHR 0xE9] @ ''dia''] then ''media''
             else py_lower v)
      else if chave \<in> set [''metragem'', ''quartos''] then
        (case py_int v of Inl e \<Rightarrow> Inl e | Inr i \<Rightarrow> Inr (py_str i))
      else Inr v)"

subsection \<open>The record store\<close>

text \<open>
  A lead is a Python \<open>dict\<close>: keys in insertion order, each once. The spreadsheet at
  \<open>LEADS_PATH\<close> is absent, or a file that \<open>pd.read_excel\<close> cannot read, or a workbook. A
  workbook is described by the table that \<open>to_excel(path, index=False)\<close> wrote to it: the
  column names, in order, and the rows, each row the cells that are not empty, under the
  names of their columns. A cell holds text, a number, a truth value or an infinity.
  Numbers are kept exactly: the column types of pandas (\<open>int64\<close>, \<open>uint64\<close>, \<open>float64\<close>)
  are not told apart, and neither the rounding of a number to a double nor the failure of
  the parser on text beyond the range of a double is modelled. Only what \<open>salvar_lead\<close>
  (lines 108 to 120) does with the file is modelled, and writing a workbook succeeds
  (openpyxl refuses a cell that holds one of the control characters U+0000 to U+0008,
  U+000B, U+000C and U+000E to U+001F: a lead with one is outside this model of the file).
\<close>

type_synonym lead = "(string \<times> string) list"

datatype cell = Text string | Number rat | Boolean bool | Infinity bool

type_synonym row = "(string \<times> cell) list"

record dataframe =
  columns :: "string list"
  rows :: "row list"

datatype arquivo = Absent | Unreadable | Workbook dataframe

definition DataFrame :: "lead list \<Rightarrow> dataframe" where
  \<comment> \<open>\<open>pd.DataFrame(records)\<close>: the columns are the keys in order of first appearance; the
      values of a lead are strings, so every cell holds text.\<close>
  "DataFrame ls =
     \<lparr>columns = rev (remdups (rev (concat (map (map fst) ls)))),
      rows = map (map (apsnd Text)) ls\<rparr>"

definition pd_concat :: "dataframe \<Rightarrow> dataframe \<Rightarrow> dataframe" where
  \<comment> \<open>\<open>pd.concat([a, b], ignore_index=True)\<close>: the rows of \<open>a\<close> then those of \<open>b\<close>; the
      columns of \<open>a\<close>, then the columns only \<open>b\<close> has.\<close>
  "pd_concat a b =
     \<lparr>columns = columns a @ filter (\<lambda>c. c \<notin> set (columns a)) (columns b),
      rows = rows a @ rows b\<rparr>"

definition exists_path :: "arquivo \<Rightarrow> bool" where
  "exists_path f = (f \<noteq> Absent)"

text \<open>
  Reading is not the inverse of writing. \<open>pd.read_excel(path)\<close> (line 113) is called with
  its defaults, without \<open>dtype\<close> and with the default NA markers, so after the cells have
  come back from the file the type of every column is inferred anew, as for a CSV file.
  What follows is the behaviour of pandas with the openpyxl engine, in four steps.

  First, the cell as the file gives it back (\<open>convert_cell\<close>). The writer stores text
  that begins with \<open>=\<close> as a formula and text that is one of the error codes of Excel as an
  error; a formula that no spreadsheet program has evaluated and an error have no value
  for the reader, and the cell comes back empty, as does a cell with the empty text. Text
  is cut after 32767 characters. An infinity is written as the text \<open>inf\<close> or \<open>-inf\<close>.
\<close>

definition ERROR_CODES :: "string list" where
  "ERROR_CODES = [''#NULL!'', ''#DIV/0!'', ''#VALUE!'', ''#REF!'', ''#NAME?'', ''#NUM!'', ''#N/A'']"

definition convert_cell :: "cell \<Rightarrow> cell option" where
  "convert_cell v =
     (case v of
        Text s \<Rightarrow>
          (let t = take 32767 s in
           if t = [] \<or> (1 < length t \<and> hd t = CHR ''='') \<or> t \<in> set ERROR_CODES then None
           else Some (Text t))
      | Infinity neg \<Rightarrow> Some (Text (if neg then ''-inf'' else ''inf''))
      | Number r \<Rightarrow> Some (Number r)
      | Boolean b \<Rightarrow> Some (Boolean b))"

text \<open>
  Second, the text that the parser reads as a number (\<open>to_double\<close>, then \<open>floatify\<close>):
  ASCII blanks, an optional sign, digits with an optional point and more digits (one
  digit at least), an optional exponent (\<open>e\<close> or \<open>E\<close>, an optional sign, one digit at
  least), ASCII blanks; or one of the words \<open>inf\<close> and \<open>infinity\<close>, in any case, with an
  optional sign. Text with neither point nor exponent is an integer, read by \<open>int()\<close>:
  its leading zeros are lost.
\<close>

datatype parsed = AsInt int | AsFloat rat | AsInf bool

definition isspace_ascii :: "char \<Rightarrow> bool" where
  "isspace_ascii c = (let n = ord c in n = 32 \<or> (9 \<le> n \<and> n \<le> 13))"

definition isdigit_ascii :: "char \<Rightarrow> bool" where
  "isdigit_ascii c = (let n = ord c in 48 \<le> n \<and> n \<le> 57)"

definition tolower_ascii :: "char \<Rightarrow> char" where
  "tolower_ascii c = (let n = ord c in if 65 \<le> n \<and> n \<le> 90 then char_of (n + 32) else c)"

definition digits_val :: "string \<Rightarrow> nat" where
  "digits_val ds = foldl (\<lambda>n c. 10 * n + digit_val c) 0 ds"

definition opt_sign :: "string \<Rightarrow> bool \<times> string" where
  \<comment> \<open>an optional sign: whether it is \<open>-\<close>, and the text after it\<close>
  "opt_sign p =
     (case p of
        [] \<Rightarrow> (False, [])
      | c # r \<Rightarrow> if c = CHR ''-'' then (True, r) else if c = CHR ''+'' then (False, r) else (False, p))"

definition to_double :: "string \<Rightarrow> parsed option" where
  "to_double s =
     (let (neg, p1) = opt_sign (dropWhile isspace_ascii s);
          ds = takeWhile isdigit_ascii p1;
          p2 = dropWhile isdigit_ascii p1;
          point = (p2 \<noteq> [] \<and> hd p2 = CHR ''.'');
          fs = (if point then takeWhile isdigit_ascii (tl p2) else []);
          p3 = (if point then dropWhile isdigit_ascii (tl p2) else p2);
          sci = (p3 \<noteq> [] \<and> (hd p3 = CHR ''e'' \<or> hd p3 = CHR ''E''));
          (eneg, q) = opt_sign (tl p3);
          es = takeWhile isdigit_ascii q;
          p4 = (if sci \<and> es \<noteq> [] then dropWhile isdigit_ascii q else p3);
          m = of_nat (digits_val (ds @ fs)) / 10 ^ length fs;
          v = (if sci then (if eneg then m / 10 ^ digits_val es else m * 10 ^ digits_val es)
               else m)
      in if ds @ fs = [] \<or> dropWhile isspace_ascii p4 \<noteq> [] then None
         else if point \<or> sci then Some (AsFloat (if neg then - v else v))
         else Some (AsInt (if neg then - int (digits_val ds) else int (digits_val ds))))"

definition floatify :: "string \<Rightarrow> parsed option" where
  "floatify s =
     (case to_double s of
        Some x \<Rightarrow> Some x
      | None \<Rightarrow>
          (let t = map tolower_ascii s in
           if t \<in> set [''inf'', ''+inf'', ''infinity'', ''+infinity''] then Some (AsInf False)
           else if t \<in> set [''-inf'', ''-infinity''] then Some (AsInf True)
           else None))"

text \<open>
  Third, the column (\<open>maybe_convert_numeric\<close>). A cell is empty, or a NA marker, or a
  number, or a truth value, or text that reads as a number, or it makes the conversion
  fail: text that does not read as a number, or that reads as an integer outside the
  range from \<open>-2^63\<close> to \<open>2^64 - 1\<close>. If no cell fails, the column becomes numeric: text
  becomes the number it reads as, a truth value becomes 1 or 0 (unless the column holds
  truth values only, which stay), a NA marker becomes an empty cell. The column stays as
  it is when it holds an integer above \<open>2^63 - 1\<close> together with a negative integer or
  an empty cell (the conflict of \<open>uint64\<close>).

  Fourth, a column whose conversion failed (\<open>sanitize_objects\<close>, \<open>maybe_convert_bool\<close>):
  the NA markers become empty cells; if every other cell is a truth value or one of the
  words \<open>True\<close>, \<open>TRUE\<close>, \<open>true\<close>, \<open>False\<close>, \<open>FALSE\<close>, \<open>false\<close>, the words become truth
  values; any other text stays as it is.
\<close>

definition STR_NA_VALUES :: "string list" where
  "STR_NA_VALUES =
     [[], ''#N/A'', ''#N/A N/A'', ''#NA'', ''-1.#IND'', ''-1.#QNAN'', ''-NaN'', ''-nan'',
      ''1.#IND'', ''1.#QNAN'', ''<NA>'', ''N/A'', ''NA'', ''NULL'', ''NaN'', ''None'', ''n/a'',
      ''nan'', ''null'']"

definition INT64_MIN :: int where "INT64_MIN = - (2 ^ 63)"
definition INT64_MAX :: int where "INT64_MAX = 2 ^ 63 - 1"
definition UINT64_MAX :: int where "UINT64_MAX = 2 ^ 64 - 1"

datatype seen = Fails | Null | SeenInt int | SeenFloat parsed | SeenBool bool

definition see :: "cell option \<Rightarrow> seen" where
  \<comment> \<open>what the conversion to numbers meets in one cell\<close>
  "see x =
     (case x of
        None \<Rightarrow> Null
      | Some (Text s) \<Rightarrow>
          if s \<in> set STR_NA_VALUES then Null
          else (case floatify s of
                  None \<Rightarrow> Fails
                | Some (AsInt n) \<Rightarrow> if n < INT64_MIN \<or> UINT64_MAX < n then Fails else SeenInt n
                | Some p \<Rightarrow> SeenFloat p)
      | Some (Number r) \<Rightarrow> if r = of_int \<lfloor>r\<rfloor> then SeenInt \<lfloor>r\<rfloor> else SeenFloat (AsFloat r)
      | Some (Boolean b) \<Rightarrow> SeenBool b
      | Some (Infinity neg) \<Rightarrow> SeenFloat (AsInf neg))"

definition is_uint :: "seen \<Rightarrow> bool" where
  "is_uint v = (case v of SeenInt n \<Rightarrow> INT64_MAX < n \<and> n \<le> UINT64_MAX | _ \<Rightarrow> False)"

definition is_sint :: "seen \<Rightarrow> bool" where
  "is_sint v = (case v of SeenInt n \<Rightarrow> INT64_MIN \<le> n \<and> n < 0 | _ \<Rightarrow> False)"

definition is_bool :: "seen \<Rightarrow> bool" where
  "is_bool v = (case v of SeenBool b \<Rightarrow> True | _ \<Rightarrow> False)"

definition as_number :: "seen \<Rightarrow> cell option" where
  \<comment> \<open>the cell of a numeric column\<close>
  "as_number v =
     (case v of
        SeenInt n \<Rightarrow> Some (Number (of_int n))
      | SeenFloat (AsFloat r) \<Rightarrow> Some (Number r)
      | SeenFloat (AsInt n) \<Rightarrow> Some (Number (of_int n))
      | SeenFloat (AsInf neg) \<Rightarrow> Some (Infinity neg)
      | SeenBool b \<Rightarrow> Some (Number (if b then 1 else 0))
      | Null \<Rightarrow> None
      | Fails \<Rightarrow> None)"

definition sanitize :: "cell option \<Rightarrow> cell option" where
  \<comment> \<open>\<open>sanitize_objects\<close>: a NA marker becomes an empty cell\<close>
  "sanitize x =
     (case x of
        Some (Text s) \<Rightarrow> if s \<in> set STR_NA_VALUES then None else Some (Text s)
      | _ \<Rightarrow> x)"

definition bool_word :: "cell option \<Rightarrow> bool option" where
  \<comment> \<open>the truth value of a cell for \<open>maybe_convert_bool\<close>, if it has one\<close>
  "bool_word x =
     (case x of
        Some (Boolean b) \<Rightarrow> Some b
      | Some (Text s) \<Rightarrow>
          if s \<in> set [''True'', ''TRUE'', ''true''] then Some True
          else if s \<in> set [''False'', ''FALSE'', ''false''] then Some False
          else None
      | _ \<Rightarrow> None)"

definition maybe_convert_bool :: "cell option list \<Rightarrow> cell option list" where
  "maybe_convert_bool col =
     (if list_all (\<lambda>x. x = None \<or> bool_word x \<noteq> None) col
      then map (\<lambda>x. map_option Boolean (bool_word x)) col
      else col)"

definition infer_types :: "cell option list \<Rightarrow> cell option list" where
  "infer_types col =
     (let vs = map see col in
      if list_ex (\<lambda>v. v = Fails) vs then maybe_convert_bool (map sanitize col)
      else if list_ex is_uint vs \<and> (list_ex (\<lambda>v. v = Null) vs \<or> list_ex is_sint vs) then col
      else if list_all is_bool vs then col
      else map as_number vs)"

definition read_excel :: "arquivo \<Rightarrow> py_error + dataframe" where
  \<comment> \<open>\<open>pd.read_excel(path)\<close>: the first row gives the column names; the cells of every
      column are read back and their type inferred.\<close>
  "read_excel f =
     (case f of
        Workbook d \<Rightarrow>
          (let cols = map (\<lambda>c. infer_types (map (\<lambda>r. Option.bind (map_of r c) convert_cell) (rows d)))
                        (columns d)
           in Inr \<lparr>columns = columns d,
                   rows = map (\<lambda>i. List.map_filter (\<lambda>(c, col). map_option (Pair c) (col ! i))
                                     (zip (columns d) cols))
                              [0..<length (rows d)]\<rparr>)
      | _ \<Rightarrow> Inl BadFile)"

definition salvar_lead :: "lead \<Rightarrow> arquivo \<Rightarrow> arquivo" where
  "salvar_lead l f =
     (let df = DataFrame [l] in
      if exists_path f then
        (case read_excel f of
           Inr antigo \<Rightarrow> Workbook (pd_concat antigo df)
         | Inl e \<Rightarrow> Workbook df)
      else Workbook df)"

subsection \<open>Session state and one run of the script\<close>

text \<open>
  Streamlit runs the script from top to bottom at every interaction; what lasts from run
  to run is \<open>st.session_state\<close> (lines 133 to 149). A run is modelled from the point where
  the message of the user, if there is one, is known (line 202): how the widgets deliver it
  (the input of the start screen, a suggestion, the input at the bottom) is not modelled.
\<close>

datatype role = user | assistant

record message =
  role :: role
  content :: texto

record session =
  messages :: "message list"
  lead :: lead
  step :: nat
  prev_question_timestamp :: int

text \<open>
  What a run does outside the session: the file of leads, the calls of \<open>time.sleep\<close>
  (their arguments in microseconds, oldest first) and the calls of \<open>salvar_lead\<close> (the
  leads they were given, oldest first).
\<close>

record world =
  leads_file :: arquivo
  slept :: "int list"
  saved :: "lead list"

record env =
  COMPANY_NAME :: texto
  COMPANY_BLURB :: texto

definition WELCOME_MSG :: "env \<Rightarrow> texto" where
  "WELCOME_MSG e =
     cps ''Oi! Sou a **Ayla**, da **'' @ COMPANY_NAME e @ cps ''**. '' @ COMPANY_BLURB e @
     cps ([CHR 0x0A, CHR 0x0A] @ ''Posso te ajudar a encontrar o seu im'' @ [CHR 0xF3] @
          ''vel dos sonhos, que cabe no seu bolso. Vamos come'' @ [CHR 0xE7] @ ''ar?'')"

definition msg_final :: texto where
  "msg_final =
     cps ''Perfeito! Lead completo e salvo '' @ [0x2705] @
     cps ([CHR 0x0A, CHR 0x0A] @ ''Em breve nossa equipe entrar'' @ [CHR 0xE1] @
          '' em contato. Se quiser, pode me contar mais prefer'' @ [CHR 0xEA] @
          ''ncias (bairro, vagas, pet-friendly etc.).'')"

definition resposta :: texto where
  "resposta =
     cps (''Obrigada! Se quiser, posso anotar mais prefer'' @ [CHR 0xEA] @
          ''ncias (bairro, vagas, pet-friendly, condom'' @ [CHR 0xED] @ ''nio, lazer). Tamb'' @
          [CHR 0xE9] @ ''m posso encaminhar seu contato para um corretor agora.'')"

definition entendi :: texto where
  "entendi = cps '':white_check_mark: Entendi!''"

definition mensagens_erro :: "(string \<times> string) list" where
  "mensagens_erro =
  [(''nome'',
      ''Por favor, informe **nome e sobrenome**.''),
   (''telefone'',
      ''Telefone deve ter **11 d'' @ [CHR 0xED] @ ''gitos** (DDD + n'' @ [CHR 0xFA] @ ''mero), ex.: 11987654321.''),
   (''email'',
      ''Digite um **e-mail v'' @ [CHR 0xE1] @ ''lido**, ex.: nome@dominio.com.''),
   (''operacao'',
      ''Responda com **1** (Compra) ou **2** (Aluguel).''),
   (''tipo_imovel'',
      ''Escolha entre **casa**, **apartamento** ou **outro**.''),
   (''metragem'',
      ''Digite **apenas n'' @ [CHR 0xFA] @ ''meros**, ex.: 80.''),
   (''quartos'',
      ''Digite **apenas n'' @ [CHR 0xFA] @ ''meros**, ex.: 2.''),
   (''urgencia'',
      ''Responda **alta**, **m'' @ [CHR 0xE9] @ ''dia** ou **baixa**.'')]"

definition erro_de :: "string \<Rightarrow> string" where
  \<comment> \<open>\<open>mensagens_erro.get(chave, "A resposta ...")\<close>\<close>
  "erro_de chave =
     (case map_of mensagens_erro chave of
        Some e \<Rightarrow> e
      | None \<Rightarrow> ''A resposta n'' @ [CHR 0xE3] @ ''o '' @ [CHR 0xE9] @ '' v'' @ [CHR 0xE1] @
                 ''lida. Tente novamente.'')"

definition aviso :: "string \<Rightarrow> texto" where
  \<comment> \<open>the f-string: warning sign (U+26A0 U+FE0F), a blank, the error text\<close>
  "aviso erro = [0x26A0, 0xFE0F, 0x20] @ cps erro"

definition chave_de :: "nat \<Rightarrow> string" where
  \<comment> \<open>\<open>list(PERGUNTAS.keys())[i]\<close>, read only under the guard \<open>i < len(PERGUNTAS)\<close>\<close>
  "chave_de i = fst (PERGUNTAS ! i)"

definition pergunta_de :: "string \<Rightarrow> string" where
  \<comment> \<open>\<open>PERGUNTAS[chave]\<close>, read only for a key taken from \<open>PERGUNTAS\<close>\<close>
  "pergunta_de chave = (case map_of PERGUNTAS chave of Some p \<Rightarrow> p | None \<Rightarrow> [])"

definition validador_de :: "string \<Rightarrow> string \<Rightarrow> bool" where
  \<comment> \<open>\<open>VALIDADORES.get(chave, lambda x: True)\<close>\<close>
  "validador_de chave = (case map_of VALIDADORES chave of Some f \<Rightarrow> f | None \<Rightarrow> (\<lambda>x. True))"

definition say :: "role \<Rightarrow> texto \<Rightarrow> session \<Rightarrow> session" where
  \<comment> \<open>\<open>st.session_state.messages.append({"role": r, "content": t})\<close>\<close>
  "say r t s = s\<lparr>messages := messages s @ [\<lparr>role = r, content = t\<rparr>]\<rparr>"

definition clear_conversation :: "session" where
  \<comment> \<open>lines 133 to 139, also the state of a new session (lines 142 to 149);
      \<open>datetime.fromtimestamp(0)\<close> is time 0\<close>
  "clear_conversation = \<lparr>messages = [], lead = [], step = 0, prev_question_timestamp = 0\<rparr>"

definition perguntar_proximo_campo :: "session \<times> world \<Rightarrow> session \<times> world" where
  \<comment> \<open>lines 206 to 223\<close>
  "perguntar_proximo_campo sw =
     (case sw of (s, w) \<Rightarrow>
        if step s < length PERGUNTAS then
          (say assistant (cps (pergunta_de (chave_de (step s)))) s, w)
        else
          (say assistant msg_final s,
           w\<lparr>leads_file := salvar_lead (lead s) (leads_file w), saved := saved w @ [lead s]\<rparr>))"

definition saudacao :: "env \<Rightarrow> session \<times> world \<Rightarrow> session \<times> world" where
  \<comment> \<open>lines 226 to 230. No message yet: the greeting and the first question\<close>
  "saudacao e sw =
     (case sw of (s, w) \<Rightarrow>
        if messages s = [] then perguntar_proximo_campo (say assistant (WELCOME_MSG e) s, w)
        else (s, w))"

definition rate_limit :: "int \<Rightarrow> int \<Rightarrow> session \<times> world \<Rightarrow> session \<times> world" where
  \<comment> \<open>lines 238 to 242. \<open>now\<close> and \<open>now'\<close> are what the two calls of
      \<open>datetime.datetime.now()\<close> return, before and after the wait\<close>
  "rate_limit now now' sw =
     (case sw of (s, w) \<Rightarrow>
        let delta = now - prev_question_timestamp s;
            w' = (if delta < MIN_TIME_BETWEEN_REQUESTS
                  then w\<lparr>slept := slept w @ [max 0 (MIN_TIME_BETWEEN_REQUESTS - delta)]\<rparr>
                  else w)
        in (s\<lparr>prev_question_timestamp := now'\<rparr>, w'))"

definition funil :: "string \<Rightarrow> session \<times> world \<Rightarrow> py_error option \<times> session \<times> world" where
  \<comment> \<open>lines 245 to 300. The user's bubble, then validation and advance, or the reply
      after the funnel. An exception of the normaliser ends the run: the lead and the
      step are as they were\<close>
  "funil user_message sw =
     (case sw of (s0, w) \<Rightarrow>
        let s = say user (cps user_message) s0 in
        if step s < length PERGUNTAS then
          let chave = chave_de (step s);
              valido = (if chave = ''faixa_preco'' then True
                        else validador_de chave user_message)
          in if valido then
               (case normalizar_campo chave user_message of
                  Inl err \<Rightarrow> (Some err, s, w)
                | Inr v \<Rightarrow>
                    (None,
                     perguntar_proximo_campo
                       (say assistant entendi
                          (s\<lparr>lead := AList.update chave v (lead s), step := step s + 1\<rparr>), w)))
             else
               (None,
                say assistant (cps (pergunta_de chave)) (say assistant (aviso (erro_de chave)) s),
                w)
        else (None, say assistant resposta s, w))"

definition escapar :: "string \<Rightarrow> string" where
  \<comment> \<open>line 235: \<open>user_message.replace("$", r"\$")\<close>\<close>
  "escapar m = py_replace_char CHR ''$'' [CHR 0x5C, CHR ''$''] m"

definition processar ::
  "string \<Rightarrow> int \<Rightarrow> int \<Rightarrow> session \<times> world \<Rightarrow> py_error option \<times> session \<times> world" where
  \<comment> \<open>lines 233 to 300, what the script does with a message: \<open>$\<close> escaped, rate
      limit, funnel\<close>
  "processar user_message now now' sw =
     funil (escapar user_message) (rate_limit now now' sw)"

record entrada =
  texto_enviado :: string
  agora :: int
  depois :: int

definition run :: "env \<Rightarrow> entrada \<Rightarrow> session \<times> world \<Rightarrow> py_error option \<times> session \<times> world" where
  \<comment> \<open>one run of the script; an empty \<open>texto_enviado\<close> is a run with no message. With no
      history and no message the script shows the start screen and stops (lines 167 to
      186).\<close>
  "run e i sw =
     (case sw of (s, w) \<Rightarrow>
        if messages s = [] \<and> texto_enviado i = [] then (None, s, w)
        else
          let sw' = saudacao e sw in
          if texto_enviado i = [] then (None, sw')
          else processar (texto_enviado i) (agora i) (depois i) sw')"

fun runs :: "env \<Rightarrow> entrada list \<Rightarrow> session \<times> world \<Rightarrow> session \<times> world" where
  \<comment> \<open>run after run: an exception ends its run, the session stays as the run left it\<close>
  "runs e [] sw = sw"
| "runs e (i # is) sw = runs e is (snd (run e i sw))"

subsection \<open>Predicates used in the proofs\<close>

text \<open>
  \<open>aceita\<close> is the test \<open>valido\<close> of the script. \<open>funil_inv\<close> is the invariant of the
  session: the lead holds the first \<open>step\<close> keys of \<open>PERGUNTAS\<close>, in order. \<open>persistido\<close>
  relates the world to the world \<open>w0\<close> the session started in: \<open>salvar_lead\<close> has been
  called once, with the lead, if the funnel is complete, and not at all otherwise.
\<close>

definition aceita :: "string \<Rightarrow> string \<Rightarrow> bool" where
  "aceita chave m = (chave = ''faixa_preco'' \<or> validador_de chave m)"

definition funil_inv :: "session \<Rightarrow> bool" where
  "funil_inv s = (step s \<le> length PERGUNTAS \<and> map fst (lead s) = take (step s) (map fst PERGUNTAS)
     \<and> (messages s = [] \<longrightarrow> step s = 0))"

definition persistido :: "world \<Rightarrow> session \<times> world \<Rightarrow> bool" where
  "persistido w0 sw =
     (case sw of (s, w) \<Rightarrow>
        if step s = length PERGUNTAS
        then saved w = saved w0 @ [lead s] \<and> leads_file w = salvar_lead (lead s) (leads_file w0)
        else saved w = saved w0 \<and> leads_file w = leads_file w0)"

section \<open>Escaping and the validators\<close>

lemma escapar_Nil: "escapar [] = []"
  by (simp add: escapar_def py_replace_char_def)

lemma escapar_Cons:
  "escapar (c # cs) = (if c = CHR ''$'' then CHR 0x5C # CHR ''$'' # escapar cs else c # escapar cs)"
  by (simp add: escapar_def py_replace_char_def)

lemma escapar_append: "escapar (xs @ ys) = escapar xs @ escapar ys"
  by (simp add: escapar_def py_replace_char_def)

lemma escapar_eq_Nil: "(escapar s = []) = (s = [])"
  by (cases s) (simp_all add: escapar_Nil escapar_Cons)

lemma escapar_no_dollar: "CHR ''$'' \<notin> set s \<Longrightarrow> escapar s = s"
  by (induction s) (auto simp: escapar_Nil escapar_Cons)

lemma escapar_dollar: "CHR ''$'' \<in> set s \<Longrightarrow> CHR ''$'' \<in> set (escapar s)"
  by (induction s) (auto simp: escapar_Nil escapar_Cons)

lemma escapar_eq_lit: "CHR ''$'' \<notin> set l \<Longrightarrow> (escapar t = l) = (t = l)"
  using escapar_dollar escapar_no_dollar by metis

lemma not_space_dollar: "\<not> py_isspace CHR ''$''" "\<not> py_isspace CHR 0x5C"
  by (simp_all add: py_isspace_def ord_def)

lemma dropWhile_escapar:
  "dropWhile py_isspace (escapar s) = escapar (dropWhile py_isspace s)"
  by (induction s) (simp_all add: escapar_Nil escapar_Cons not_space_dollar)

lemma rstrip_escapar:
  "rev (dropWhile py_isspace (rev (escapar s))) = escapar (rev (dropWhile py_isspace (rev s)))"
proof (induction s rule: rev_induct)
  case Nil
  show ?case by (simp add: escapar_Nil)
next
  case (snoc x xs)
  show ?case
  proof (cases "py_isspace x")
    case True
    then have "x \<noteq> CHR ''$''" using not_space_dollar by auto
    with True snoc show ?thesis by (simp add: escapar_append escapar_Cons escapar_Nil)
  next
    case False
    then show ?thesis
      by (simp add: escapar_append escapar_Cons escapar_Nil not_space_dollar)
  qed
qed

lemma py_strip_escapar: "py_strip (escapar s) = escapar (py_strip s)"
  by (simp add: py_strip_def dropWhile_escapar rstrip_escapar)


lemma ord_inj: "(ord c = ord d) = (c = d)"
  by (simp add: ord_def)

lemma ord_lower_char:
  "ord (py_lower_char c) =
     (if (65 \<le> ord c \<and> ord c \<le> 90) \<or> (192 \<le> ord c \<and> ord c \<le> 214) \<or> (216 \<le> ord c \<and> ord c \<le> 222)
      then ord c + 32 else ord c)"
  by (auto simp: py_lower_char_def ord_def Let_def)

lemma ord_dollar: "ord CHR ''$'' = 36" "ord CHR 0x5C = 92"
  by (simp_all add: ord_def)

lemma lower_char_dollar: "(py_lower_char c = CHR ''$'') = (c = CHR ''$'')"
proof -
  have "(ord (py_lower_char c) = 36) = (ord c = 36)"
    by (auto simp: ord_lower_char)
  then show ?thesis
    by (metis ord_inj ord_dollar(1))
qed

lemma lower_char_backslash: "py_lower_char CHR 0x5C = CHR 0x5C"
  by (simp add: py_lower_char_def ord_def)

lemma py_lower_escapar: "py_lower (escapar s) = escapar (py_lower s)"
  by (induction s)
     (simp_all add: py_lower_def escapar_Nil escapar_Cons lower_char_dollar lower_char_backslash)

lemma split_from_escapar:
  "(tok = []) = (tok' = []) \<Longrightarrow>
   length (split_from tok (escapar s)) = length (split_from tok' s)"
proof (induction s arbitrary: tok tok')
  case Nil
  then show ?case by (simp add: escapar_Nil)
next
  case (Cons c cs)
  show ?case
  proof (cases "c = CHR ''$''")
    case True
    have "length (split_from ((tok @ [CHR 0x5C]) @ [CHR ''$'']) (escapar cs)) =
          length (split_from (tok' @ [CHR ''$'']) cs)"
      by (rule Cons.IH) simp
    with True show ?thesis
      by (simp add: escapar_Cons not_space_dollar)
  next
    case False
    have a: "length (split_from [] (escapar cs)) = length (split_from [] cs)"
      by (rule Cons.IH) simp
    have b: "length (split_from (tok @ [c]) (escapar cs)) = length (split_from (tok' @ [c]) cs)"
      by (rule Cons.IH) simp
    from False a b Cons.prems show ?thesis
      by (simp add: escapar_Cons)
  qed
qed

lemma validar_nome_escapar: "validar_nome (escapar t) = validar_nome t"
  by (simp add: validar_nome_def py_split_def split_from_escapar)

lemma fullmatch_digits:
  "fullmatch (replicate n (One py_isdecimal)) s = (length s = n \<and> list_all py_isdecimal s)"
proof (induction n arbitrary: s)
  case 0
  show ?case by auto
next
  case (Suc n)
  then show ?case by (cases s) auto
qed

lemma decimal_not_dollar: "\<not> py_isdecimal CHR ''$''" "\<not> py_isdigit_char CHR ''$''"
  by (simp_all add: py_isdecimal_def py_isdigit_char_def ord_def)

lemma validar_telefone_escapar: "validar_telefone (escapar t) = validar_telefone t"
proof (cases "CHR ''$'' \<in> set t")
  case True
  then have "CHR ''$'' \<in> set (escapar t)" by (rule escapar_dollar)
  with True have "\<not> list_all py_isdecimal t" "\<not> list_all py_isdecimal (escapar t)"
    using decimal_not_dollar by (auto simp: list_all_iff)
  then show ?thesis by (simp add: validar_telefone_def fullmatch_digits)
next
  case False
  then show ?thesis by (simp add: escapar_no_dollar)
qed

lemma py_isdigit_escapar: "py_isdigit (escapar t) = py_isdigit t"
proof (cases "CHR ''$'' \<in> set t")
  case True
  then have "CHR ''$'' \<in> set (escapar t)" by (rule escapar_dollar)
  with True have "\<not> list_all py_isdigit_char t" "\<not> list_all py_isdigit_char (escapar t)"
    using decimal_not_dollar by (auto simp: list_all_iff)
  then show ?thesis by (simp add: py_isdigit_def)
next
  case False
  then show ?thesis by (simp add: escapar_no_dollar)
qed

lemma validar_numero_escapar: "validar_numero (escapar t) = validar_numero t"
  by (simp add: validar_numero_def py_strip_escapar py_isdigit_escapar)

lemma validar_operacao_escapar: "validar_operacao (escapar t) = validar_operacao t"
  by (simp add: validar_operacao_def py_strip_escapar escapar_eq_lit)

lemma validar_tipo_imovel_escapar: "validar_tipo_imovel (escapar t) = validar_tipo_imovel t"
  by (simp add: validar_tipo_imovel_def py_strip_escapar py_lower_escapar escapar_eq_lit)

lemma validar_urgencia_escapar: "validar_urgencia (escapar t) = validar_urgencia t"
  by (simp add: validar_urgencia_def py_strip_escapar py_lower_escapar escapar_eq_lit)

lemma email_char_dollar: "email_char CHR ''$''" "email_char CHR 0x5C"
  by (simp_all add: email_char_def py_isspace_def ord_def)

lemma email_tail_escapar:
  "fullmatch [Plus email_char] (escapar s) = fullmatch [Plus email_char] s
   \<and> fullmatch [One (\<lambda>c. c = CHR ''.''), Plus email_char] (escapar s)
     = fullmatch [One (\<lambda>c. c = CHR ''.''), Plus email_char] s
   \<and> fullmatch [Plus email_char, One (\<lambda>c. c = CHR ''.''), Plus email_char] (escapar s)
     = fullmatch [Plus email_char, One (\<lambda>c. c = CHR ''.''), Plus email_char] s
   \<and> fullmatch [One (\<lambda>c. c = CHR ''@''), Plus email_char, One (\<lambda>c. c = CHR ''.''), Plus email_char] (escapar s)
     = fullmatch [One (\<lambda>c. c = CHR ''@''), Plus email_char, One (\<lambda>c. c = CHR ''.''), Plus email_char] s
   \<and> fullmatch [Plus email_char, One (\<lambda>c. c = CHR ''@''), Plus email_char, One (\<lambda>c. c = CHR ''.''), Plus email_char] (escapar s)
     = fullmatch [Plus email_char, One (\<lambda>c. c = CHR ''@''), Plus email_char, One (\<lambda>c. c = CHR ''.''), Plus email_char] s"
proof (induction s)
  case Nil
  show ?case by (simp add: escapar_Nil)
next
  case (Cons c cs)
  then show ?case
    by (simp add: escapar_Cons email_char_dollar escapar_eq_Nil)
qed

lemma validar_email_escapar: "validar_email (escapar t) = validar_email t"
  by (simp add: validar_email_def email_tail_escapar)

lemma validador_de_escapar: "validador_de chave (escapar t) = validador_de chave t"
  by (simp add: validador_de_def VALIDADORES_def validar_nome_escapar validar_telefone_escapar
      validar_email_escapar validar_operacao_escapar validar_tipo_imovel_escapar
      validar_numero_escapar validar_urgencia_escapar)

subsection \<open>The table of questions\<close>

lemma length_PERGUNTAS: "length PERGUNTAS = 9"
  by (simp add: PERGUNTAS_def)

lemma keys_PERGUNTAS:
  "map fst PERGUNTAS = [''nome'', ''telefone'', ''email'', ''operacao'', ''tipo_imovel'',
     ''metragem'', ''quartos'', ''faixa_preco'', ''urgencia'']"
  by (simp add: PERGUNTAS_def)

section \<open>The funnel, step by step\<close>

lemma distinct_keys: "distinct (map fst PERGUNTAS)"
  by (simp add: keys_PERGUNTAS)

lemma update_new_key: "k \<notin> set (map fst l) \<Longrightarrow> map fst (AList.update k v l) = map fst l @ [k]"
  by (induction l) auto

lemma nth_notin_take: "distinct xs \<Longrightarrow> n < length xs \<Longrightarrow> xs ! n \<notin> set (take n xs)"
  by (auto simp: in_set_conv_nth distinct_conv_nth)

lemma keys_after_update:
  assumes "n < length PERGUNTAS" and "map fst l = take n (map fst PERGUNTAS)"
  shows "map fst (AList.update (chave_de n) v l) = take (Suc n) (map fst PERGUNTAS)"
proof -
  have n: "n < length (map fst PERGUNTAS)" using assms(1) by simp
  have "map fst PERGUNTAS ! n \<notin> set (take n (map fst PERGUNTAS))"
    using distinct_keys n by (rule nth_notin_take)
  then have "chave_de n \<notin> set (map fst l)"
    using assms by (simp add: chave_de_def)
  then have "map fst (AList.update (chave_de n) v l) = map fst l @ [chave_de n]"
    by (rule update_new_key)
  also have "\<dots> = take (Suc n) (map fst PERGUNTAS)"
    using assms n by (simp add: take_Suc_conv_app_nth chave_de_def)
  finally show ?thesis .
qed


lemma say_simps:
  "lead (say r t s) = lead s" "step (say r t s) = step s"
  "prev_question_timestamp (say r t s) = prev_question_timestamp s"
  "messages (say r t s) = messages s @ [\<lparr>role = r, content = t\<rparr>]"
  by (simp_all add: say_def)

lemma perguntar_frame:
  "lead (fst (perguntar_proximo_campo (s, w))) = lead s"
  "step (fst (perguntar_proximo_campo (s, w))) = step s"
  "prev_question_timestamp (fst (perguntar_proximo_campo (s, w))) = prev_question_timestamp s"
  "slept (snd (perguntar_proximo_campo (s, w))) = slept w"
  "messages (fst (perguntar_proximo_campo (s, w))) \<noteq> []"
  "leads_file (snd (perguntar_proximo_campo (s, w))) =
     (if step s < length PERGUNTAS then leads_file w else salvar_lead (lead s) (leads_file w))"
  "saved (snd (perguntar_proximo_campo (s, w))) =
     (if step s < length PERGUNTAS then saved w else saved w @ [lead s])"
  by (simp_all add: perguntar_proximo_campo_def say_simps)

lemma saudacao_frame:
  "lead (fst (saudacao e (s, w))) = lead s"
  "step (fst (saudacao e (s, w))) = step s"
  "prev_question_timestamp (fst (saudacao e (s, w))) = prev_question_timestamp s"
  "slept (snd (saudacao e (s, w))) = slept w"
  "messages (fst (saudacao e (s, w))) \<noteq> []"
  "leads_file (snd (saudacao e (s, w))) =
     (if messages s = [] \<and> \<not> step s < length PERGUNTAS
      then salvar_lead (lead s) (leads_file w) else leads_file w)"
  "saved (snd (saudacao e (s, w))) =
     (if messages s = [] \<and> \<not> step s < length PERGUNTAS
      then saved w @ [lead s] else saved w)"
  by (simp_all add: saudacao_def perguntar_frame say_simps)

lemma rate_limit_frame:
  "lead (fst (rate_limit a b (s, w))) = lead s"
  "step (fst (rate_limit a b (s, w))) = step s"
  "messages (fst (rate_limit a b (s, w))) = messages s"
  "prev_question_timestamp (fst (rate_limit a b (s, w))) = b"
  "leads_file (snd (rate_limit a b (s, w))) = leads_file w"
  "saved (snd (rate_limit a b (s, w))) = saved w"
  "slept (snd (rate_limit a b (s, w))) =
     (if a - prev_question_timestamp s < MIN_TIME_BETWEEN_REQUESTS
      then slept w @ [max 0 (MIN_TIME_BETWEEN_REQUESTS - (a - prev_question_timestamp s))]
      else slept w)"
  by (simp_all add: rate_limit_def Let_def)

lemma funil_complete:
  "\<not> step s < length PERGUNTAS \<Longrightarrow>
   funil m (s, w) = (None, say assistant resposta (say user (cps m) s), w)"
  by (simp add: funil_def say_simps Let_def)

lemma funil_reject:
  "step s < length PERGUNTAS \<Longrightarrow> \<not> aceita (chave_de (step s)) m \<Longrightarrow>
   funil m (s, w) =
     (None,
      say assistant (cps (pergunta_de (chave_de (step s))))
        (say assistant (aviso (erro_de (chave_de (step s)))) (say user (cps m) s)), w)"
  by (simp add: funil_def say_simps aceita_def Let_def)

lemma funil_raise:
  "step s < length PERGUNTAS \<Longrightarrow> aceita (chave_de (step s)) m \<Longrightarrow>
   normalizar_campo (chave_de (step s)) m = Inl err \<Longrightarrow>
   funil m (s, w) = (Some err, say user (cps m) s, w)"
  by (cases "chave_de (step s) = ''faixa_preco''") (simp_all add: funil_def say_simps aceita_def Let_def)

lemma funil_accept:
  "step s < length PERGUNTAS \<Longrightarrow> aceita (chave_de (step s)) m \<Longrightarrow>
   normalizar_campo (chave_de (step s)) m = Inr v \<Longrightarrow>
   funil m (s, w) =
     (None,
      perguntar_proximo_campo
        (say assistant entendi
           ((say user (cps m) s)\<lparr>lead := AList.update (chave_de (step s)) v (lead s),
                                  step := step s + 1\<rparr>), w))"
  by (cases "chave_de (step s) = ''faixa_preco''") (simp_all add: funil_def say_simps aceita_def Let_def)

lemma funil_cases:
  obtains
    (complete) "\<not> step s < length PERGUNTAS"
  | (reject) "step s < length PERGUNTAS" "\<not> aceita (chave_de (step s)) m"
  | (raise) err where "step s < length PERGUNTAS" "aceita (chave_de (step s)) m"
      "normalizar_campo (chave_de (step s)) m = Inl err"
  | (accept) v where "step s < length PERGUNTAS" "aceita (chave_de (step s)) m"
      "normalizar_campo (chave_de (step s)) m = Inr v"
  by (cases "normalizar_campo (chave_de (step s)) m") auto

lemma funil_inv_funil:
  assumes "funil_inv s"
  shows "funil_inv (fst (snd (funil m (s, w))))"
proof (rule funil_cases[where s=s and m=m], goal_cases)
  case 1
  with assms show ?thesis by (simp add: funil_complete funil_inv_def say_simps)
next
  case 2
  with assms show ?thesis by (simp add: funil_reject funil_inv_def say_simps)
next
  case (3 err)
  with assms show ?thesis by (simp add: funil_raise funil_inv_def say_simps)
next
  case (4 v)
  with assms show ?thesis
    by (simp add: funil_accept funil_inv_def say_simps perguntar_frame keys_after_update)
qed

lemma funil_inv_saudacao: "funil_inv s \<Longrightarrow> funil_inv (fst (saudacao e (s, w)))"
  by (simp add: funil_inv_def saudacao_frame)

lemma funil_inv_rate_limit: "funil_inv s \<Longrightarrow> funil_inv (fst (rate_limit a b (s, w)))"
  by (simp add: funil_inv_def rate_limit_frame)

lemma run_inv: "funil_inv s \<Longrightarrow> funil_inv (fst (snd (run e i (s, w))))"
proof -
  assume inv: "funil_inv s"
  obtain s1 w1 where s1: "saudacao e (s, w) = (s1, w1)" by (cases "saudacao e (s, w)")
  have i1: "funil_inv s1" using funil_inv_saudacao[OF inv, of e w] s1 by simp
  obtain s2 w2 where s2: "rate_limit (agora i) (depois i) (s1, w1) = (s2, w2)"
    by (cases "rate_limit (agora i) (depois i) (s1, w1)")
  have i2: "funil_inv s2" using funil_inv_rate_limit[OF i1, of "agora i" "depois i" w1] s2 by simp
  show ?thesis
    using inv i1 funil_inv_funil[OF i2, of "escapar (texto_enviado i)" w2]
    by (simp add: run_def processar_def s1 s2 Let_def)
qed

lemma runs_inv: "funil_inv s \<Longrightarrow> funil_inv (fst (runs e is (s, w)))"
proof (induction "is" arbitrary: s w)
  case Nil
  then show ?case by simp
next
  case (Cons i "is")
  obtain r s' w' where r: "run e i (s, w) = (r, s', w')" by (cases "run e i (s, w)")
  have "funil_inv s'" using run_inv[OF Cons.prems, of e i w] r by simp
  then have "funil_inv (fst (runs e is (s', w')))" by (rule Cons.IH)
  then show ?case by (simp add: r)
qed

lemma funil_inv_init: "funil_inv clear_conversation"
  by (simp add: funil_inv_def clear_conversation_def)

lemma persistido_saudacao:
  "funil_inv s \<Longrightarrow> persistido w0 (s, w) \<Longrightarrow> persistido w0 (saudacao e (s, w))"
  by (cases "saudacao e (s, w)")
     (use saudacao_frame[of e s w] in \<open>auto simp: persistido_def funil_inv_def length_PERGUNTAS\<close>)

lemma persistido_rate_limit:
  "persistido w0 (s, w) \<Longrightarrow> persistido w0 (rate_limit a b (s, w))"
  by (cases "rate_limit a b (s, w)")
     (use rate_limit_frame[of a b s w] in \<open>auto simp: persistido_def\<close>)

lemma persistido_funil:
  assumes "funil_inv s" and "persistido w0 (s, w)"
  shows "persistido w0 (snd (funil m (s, w)))"
proof (rule funil_cases[where s=s and m=m], goal_cases)
  case 1
  with assms show ?thesis by (simp add: funil_complete persistido_def say_simps)
next
  case 2
  with assms show ?thesis by (simp add: funil_reject persistido_def say_simps)
next
  case (3 err)
  with assms show ?thesis by (simp add: funil_raise persistido_def say_simps)
next
  case (4 v)
  obtain s' w' where p: "perguntar_proximo_campo
        (say assistant entendi
           ((say user (cps m) s)\<lparr>lead := AList.update (chave_de (step s)) v (lead s),
                                  step := step s + 1\<rparr>), w) = (s', w')"
    by (cases "perguntar_proximo_campo
        (say assistant entendi
           ((say user (cps m) s)\<lparr>lead := AList.update (chave_de (step s)) v (lead s),
                                  step := step s + 1\<rparr>), w)")
  from perguntar_frame(1,2,6,7)[of "say assistant entendi
           ((say user (cps m) s)\<lparr>lead := AList.update (chave_de (step s)) v (lead s),
                                  step := step s + 1\<rparr>)" w] p
  have q: "lead s' = AList.update (chave_de (step s)) v (lead s)" "step s' = Suc (step s)"
    "leads_file w' = (if Suc (step s) < length PERGUNTAS then leads_file w
        else salvar_lead (AList.update (chave_de (step s)) v (lead s)) (leads_file w))"
    "saved w' = (if Suc (step s) < length PERGUNTAS then saved w
        else saved w @ [AList.update (chave_de (step s)) v (lead s)])"
    by (simp_all add: say_simps)
  from 4 assms(2) have "saved w = saved w0" "leads_file w = leads_file w0"
    by (simp_all add: persistido_def)
  moreover have f: "funil m (s, w) = (None, s', w')"
    using funil_accept[OF 4, of w] p by simp
  moreover have "step s < length PERGUNTAS" using 4 by simp
  ultimately show ?thesis using q
    by (auto simp add: persistido_def)
qed

lemma run_persistido:
  assumes "funil_inv s" and "persistido w0 (s, w)"
  shows "persistido w0 (snd (run e i (s, w)))"
proof -
  obtain s1 w1 where s1: "saudacao e (s, w) = (s1, w1)" by (cases "saudacao e (s, w)")
  have i1: "funil_inv s1" using funil_inv_saudacao[OF assms(1), of e w] s1 by simp
  have p1: "persistido w0 (s1, w1)" using persistido_saudacao[OF assms, of e] s1 by simp
  obtain s2 w2 where s2: "rate_limit (agora i) (depois i) (s1, w1) = (s2, w2)"
    by (cases "rate_limit (agora i) (depois i) (s1, w1)")
  have i2: "funil_inv s2" using funil_inv_rate_limit[OF i1, of "agora i" "depois i" w1] s2 by simp
  have p2: "persistido w0 (s2, w2)"
    using persistido_rate_limit[OF p1, of "agora i" "depois i"] s2 by simp
  show ?thesis
    using assms(2) p1 persistido_funil[OF i2 p2, of "escapar (texto_enviado i)"]
    by (simp add: run_def processar_def s1 s2 Let_def)
qed

lemma runs_persistido:
  "funil_inv s \<Longrightarrow> persistido w0 (s, w) \<Longrightarrow> persistido w0 (runs e is (s, w))"
proof (induction "is" arbitrary: s w)
  case Nil
  then show ?case by simp
next
  case (Cons i "is")
  obtain r s' w' where r: "run e i (s, w) = (r, s', w')" by (cases "run e i (s, w)")
  have a: "funil_inv s'" using run_inv[OF Cons.prems(1), of e i w] r by simp
  have b: "persistido w0 (s', w')" using run_persistido[OF Cons.prems, of e i] r by simp
  show ?case using Cons.IH[OF a b] by (simp add: r)
qed

lemma run_after_complete:
  assumes "\<not> step s < length PERGUNTAS" and "messages s \<noteq> []"
  shows "run e i (s, w) =
    (if texto_enviado i = [] then (None, s, w)
     else (None,
       say assistant resposta
         (say user (cps (escapar (texto_enviado i))) (s\<lparr>prev_question_timestamp := depois i\<rparr>)),
       snd (rate_limit (agora i) (depois i) (s, w))))"
  using assms
  by (simp add: run_def saudacao_def processar_def rate_limit_def funil_complete Let_def)


lemma run_accept:
  assumes "step s = n" and "n < length PERGUNTAS" and "lead s = l"
    and "texto_enviado i = t" and "t \<noteq> []" and "chave_de n = k"
    and "aceita k (escapar t)" and "normalizar_campo k (escapar t) = Inr v"
  shows "\<exists>s' w'. run e i (s, w) = (None, s', w') \<and> step s' = Suc n \<and>
           lead s' = AList.update k v l \<and> messages s' \<noteq> []"
proof -
  obtain s1 w1 where s1: "saudacao e (s, w) = (s1, w1)" by (cases "saudacao e (s, w)")
  have f1: "step s1 = n" "lead s1 = l"
    using saudacao_frame(1,2)[of e s w] s1 assms by simp_all
  obtain s2 w2 where s2: "rate_limit (agora i) (depois i) (s1, w1) = (s2, w2)"
    by (cases "rate_limit (agora i) (depois i) (s1, w1)")
  have f2: "step s2 = n" "lead s2 = l"
    using rate_limit_frame(1,2)[of "agora i" "depois i" s1 w1] s2 f1 by simp_all
  have a: "step s2 < length PERGUNTAS" "aceita (chave_de (step s2)) (escapar t)"
    "normalizar_campo (chave_de (step s2)) (escapar t) = Inr v"
    using f2 assms by simp_all
  obtain s3 w3 where s3: "perguntar_proximo_campo
        (say assistant entendi
           ((say user (cps (escapar t)) s2)\<lparr>lead := AList.update (chave_de (step s2)) v (lead s2),
                                  step := step s2 + 1\<rparr>), w2) = (s3, w3)"
    by (cases "perguntar_proximo_campo
        (say assistant entendi
           ((say user (cps (escapar t)) s2)\<lparr>lead := AList.update (chave_de (step s2)) v (lead s2),
                                  step := step s2 + 1\<rparr>), w2)")
  have f3: "lead s3 = AList.update k v l" "step s3 = Suc n" "messages s3 \<noteq> []"
    using perguntar_frame(1,2,5)[of "say assistant entendi
           ((say user (cps (escapar t)) s2)\<lparr>lead := AList.update (chave_de (step s2)) v (lead s2),
                                  step := step s2 + 1\<rparr>)" w2] s3 f2 assms
    by (simp_all add: say_simps)
  have "funil (escapar t) (s2, w2) = (None, s3, w3)"
    using funil_accept[OF a, of w2] s3 by simp
  then have "run e i (s, w) = (None, s3, w3)"
    using assms by (simp add: run_def processar_def s1 s2)
  with f3 show ?thesis by blast
qed

lemma rejected_key_configured:
  "\<not> validador_de k m \<Longrightarrow> map_of mensagens_erro k = Some (erro_de k)"
  by (auto simp: validador_de_def VALIDADORES_def mensagens_erro_def erro_de_def split: if_splits)

lemma pergunta_configured:
  assumes "i < length PERGUNTAS"
  shows "map_of PERGUNTAS (chave_de i) = Some (pergunta_de (chave_de i))"
proof -
  have "PERGUNTAS ! i \<in> set PERGUNTAS" using assms by (rule nth_mem)
  then have "(chave_de i, snd (PERGUNTAS ! i)) \<in> set PERGUNTAS" by (simp add: chave_de_def)
  then have "map_of PERGUNTAS (chave_de i) = Some (snd (PERGUNTAS ! i))"
    using distinct_keys by (simp add: map_of_eq_Some_iff)
  then show ?thesis by (simp add: pergunta_de_def)
qed

lemma chave_de_simps:
  "chave_de 0 = ''nome''" "chave_de 1 = ''telefone''" "chave_de (Suc 0) = ''telefone''" "chave_de 2 = ''email''"
  "chave_de 3 = ''operacao''" "chave_de 4 = ''tipo_imovel''" "chave_de 5 = ''metragem''"
  "chave_de 6 = ''quartos''" "chave_de 7 = ''faixa_preco''" "chave_de 8 = ''urgencia''"
  by (simp_all add: chave_de_def PERGUNTAS_def)

lemma respostas_ana:
  "aceita ''nome'' (escapar (''Ana Silva''))"
  "normalizar_campo ''nome'' (escapar (''Ana Silva'')) = Inr (''Ana Silva'')"
  "aceita ''telefone'' (escapar (''11987654321''))"
  "normalizar_campo ''telefone'' (escapar (''11987654321'')) = Inr (''11987654321'')"
  "aceita ''email'' (escapar (''ana@ex.com''))"
  "normalizar_campo ''email'' (escapar (''ana@ex.com'')) = Inr (''ana@ex.com'')"
  "aceita ''operacao'' (escapar (''1''))"
  "normalizar_campo ''operacao'' (escapar (''1'')) = Inr (''compra'')"
  "aceita ''tipo_imovel'' (escapar (''casa''))"
  "normalizar_campo ''tipo_imovel'' (escapar (''casa'')) = Inr (''casa'')"
  "aceita ''metragem'' (escapar (''80''))"
  "normalizar_campo ''metragem'' (escapar (''80'')) = Inr (''80'')"
  "aceita ''quartos'' (escapar (''2''))"
  "normalizar_campo ''quartos'' (escapar (''2'')) = Inr (''2'')"
  "aceita ''faixa_preco'' (escapar (''at'' @ [CHR 0xE9] @ '' 300 mil''))"
  "normalizar_campo ''faixa_preco'' (escapar (''at'' @ [CHR 0xE9] @ '' 300 mil'')) = Inr (''at'' @ [CHR 0xE9] @ '' 300 mil'')"
  "aceita ''urgencia'' (escapar (''alta''))"
  "normalizar_campo ''urgencia'' (escapar (''alta'')) = Inr (''alta'')"
  by code_simp+

section \<open>Stripping, integers and their decimal form\<close>

lemma rstrip_prefix: "\<exists>c. a = rev (dropWhile P (rev a)) @ c"
proof -
  have "rev (takeWhile P (rev a) @ dropWhile P (rev a)) = a"
    by (simp only: takeWhile_dropWhile_id rev_rev_ident)
  then have "a = rev (dropWhile P (rev a)) @ rev (takeWhile P (rev a))"
    by (simp only: rev_append)
  then show ?thesis by blast
qed

lemma lstrip_rstrip:
  assumes "a = [] \<or> \<not> P (hd a)"
  shows "dropWhile P (rev (dropWhile P (rev a))) = rev (dropWhile P (rev a))"
proof (cases "rev (dropWhile P (rev a))")
  case Nil
  show ?thesis by (simp only: Nil dropWhile.simps)
next
  case (Cons x xs)
  obtain c where "a = rev (dropWhile P (rev a)) @ c" using rstrip_prefix by blast
  with Cons have "a = (x # xs) @ c" by simp
  then have "hd a = x" "a \<noteq> []" by auto
  with assms have "\<not> P x" by auto
  then show ?thesis by (simp only: Cons dropWhile.simps if_False)
qed

lemma lstrip_head: "dropWhile P s = [] \<or> \<not> P (hd (dropWhile P s))"
  by (metis hd_dropWhile)

lemma py_strip_idem: "py_strip (py_strip s) = py_strip s"
  unfolding py_strip_def
  by (simp add: lstrip_rstrip[OF lstrip_head])


lemma ord_char_of_digit: "n < 10 \<Longrightarrow> ord (char_of (48 + n)) = 48 + n"
  by (simp add: ord_def)

lemma digit_char:
  assumes "n < 10"
  shows "py_isdecimal (char_of (48 + n))" "digit_val (char_of (48 + n)) = n"
    "\<not> int_isspace (char_of (48 + n))" "\<not> py_isspace (char_of (48 + n))"
proof -
  note o = ord_char_of_digit[OF assms]
  show "py_isdecimal (char_of (48 + n))" using assms by (simp add: py_isdecimal_def o)
  show "digit_val (char_of (48 + n)) = n" by (simp add: digit_val_def o)
  show "\<not> int_isspace (char_of (48 + n))" using assms by (simp add: int_isspace_def o)
  show "\<not> py_isspace (char_of (48 + n))" using assms by (simp add: py_isspace_def o)
qed

lemma decimal_not_sign:
  "py_isdecimal c \<Longrightarrow> c \<noteq> CHR ''-'' \<and> c \<noteq> CHR ''+'' \<and> \<not> int_isspace c \<and> \<not> py_isspace c"
  by (auto simp: py_isdecimal_def int_isspace_def py_isspace_def ord_def Let_def)

lemma str_nat_digits: "list_all py_isdecimal (str_nat n) \<and> str_nat n \<noteq> []"
proof (induction n rule: str_nat.induct)
  case (1 n)
  show ?case
  proof (cases "n < 10")
    case True
    then show ?thesis by (subst (1 2) str_nat.simps) (simp add: digit_char)
  next
    case False
    with 1 show ?thesis by (subst (1 2) str_nat.simps) (simp add: digit_char)
  qed
qed

lemma int_digits_append:
  "list_all py_isdecimal ds \<Longrightarrow>
   int_digits b acc (ds @ r) =
     int_digits (b \<or> ds \<noteq> []) (foldl (\<lambda>a d. a * 10 + digit_val d) acc ds) r"
  by (induction ds arbitrary: b acc) simp_all

lemma foldl_str_nat:
  "foldl (\<lambda>a d. a * 10 + digit_val d) acc (str_nat n) = acc * 10 ^ length (str_nat n) + n"
proof (induction n arbitrary: acc rule: str_nat.induct)
  case (1 n)
  show ?case
  proof (cases "n < 10")
    case True
    then show ?thesis by (subst (1 2) str_nat.simps) (simp add: digit_char)
  next
    case False
    then have "foldl (\<lambda>a d. a * 10 + digit_val d) acc (str_nat (n div 10)) =
        acc * 10 ^ length (str_nat (n div 10)) + n div 10"
      using 1 by simp
    with False show ?thesis
      by (subst (1 2) str_nat.simps) (simp add: digit_char algebra_simps)
  qed
qed

lemma int_digits_str_nat: "int_digits False 0 (str_nat n) = Some n"
  using int_digits_append[of "str_nat n" False 0 "[]"] str_nat_digits[of n]
  by (simp add: foldl_str_nat)

lemma strip_id:
  "s \<noteq> [] \<Longrightarrow> \<not> P (hd s) \<Longrightarrow> \<not> P (last s) \<Longrightarrow> rev (dropWhile P (rev (dropWhile P s))) = s"
proof -
  assume s: "s \<noteq> []" and h: "\<not> P (hd s)" and l: "\<not> P (last s)"
  from s h have a: "dropWhile P s = s" by (cases s) simp_all
  from s have "rev s \<noteq> []" by simp
  moreover from s l have "\<not> P (hd (rev s))" by (simp add: hd_rev)
  ultimately have "dropWhile P (rev s) = rev s" by (cases "rev s") simp_all
  with a show ?thesis by simp
qed

lemma str_nat_ends:
  "py_isdecimal (hd (str_nat n))" "py_isdecimal (last (str_nat n))"
  using str_nat_digits[of n] by (auto simp: list_all_iff)

lemma py_int_py_str: "py_int (py_str i) = Inr i"
proof (cases "i < 0")
  case True
  have t: "rev (dropWhile int_isspace (rev (dropWhile int_isspace (CHR ''-'' # str_nat (nat (- i))))))
      = CHR ''-'' # str_nat (nat (- i))"
  proof (rule strip_id)
    show "CHR ''-'' # str_nat (nat (- i)) \<noteq> []" by simp
    show "\<not> int_isspace (hd (CHR ''-'' # str_nat (nat (- i))))"
      by (simp add: int_isspace_def ord_def)
    have "last (CHR ''-'' # str_nat (nat (- i))) = last (str_nat (nat (- i)))"
      using str_nat_digits[of "nat (- i)"] by simp
    then show "\<not> int_isspace (last (CHR ''-'' # str_nat (nat (- i))))"
      using str_nat_ends(2)[of "nat (- i)"] decimal_not_sign by simp
  qed
  from True have ps: "py_str i = CHR ''-'' # str_nat (nat (- i))" by (simp add: py_str_def)
  have "py_int (py_str i) = Inr (- int (nat (- i)))"
    by (simp only: py_int_def ps t) (simp add: int_digits_str_nat)
  with True show ?thesis by simp
next
  case False
  have t: "rev (dropWhile int_isspace (rev (dropWhile int_isspace (str_nat (nat i))))) = str_nat (nat i)"
  proof (rule strip_id)
    show "str_nat (nat i) \<noteq> []" using str_nat_digits[of "nat i"] by simp
    show "\<not> int_isspace (hd (str_nat (nat i)))"
      using str_nat_ends(1)[of "nat i"] decimal_not_sign by simp
    show "\<not> int_isspace (last (str_nat (nat i)))"
      using str_nat_ends(2)[of "nat i"] decimal_not_sign by simp
  qed
  have h: "hd (str_nat (nat i)) \<noteq> CHR ''-''" "hd (str_nat (nat i)) \<noteq> CHR ''+''"
    using str_nat_ends(1)[of "nat i"] decimal_not_sign by auto
  from False have ps: "py_str i = str_nat (nat i)" by (simp add: py_str_def)
  have "py_int (py_str i) = Inr (int (nat i))"
    by (simp only: py_int_def ps t) (simp add: int_digits_str_nat h)
  with False show ?thesis by simp
qed

lemma py_strip_py_str: "py_strip (py_str i) = py_str i"
proof (cases "i < 0")
  case True
  have "py_strip (CHR ''-'' # str_nat (nat (- i))) = CHR ''-'' # str_nat (nat (- i))"
    unfolding py_strip_def
  proof (rule strip_id)
    show "CHR ''-'' # str_nat (nat (- i)) \<noteq> []" by simp
    show "\<not> py_isspace (hd (CHR ''-'' # str_nat (nat (- i))))"
      by (simp add: py_isspace_def ord_def)
    have "last (CHR ''-'' # str_nat (nat (- i))) = last (str_nat (nat (- i)))"
      using str_nat_digits[of "nat (- i)"] by simp
    then show "\<not> py_isspace (last (CHR ''-'' # str_nat (nat (- i))))"
      using str_nat_ends(2)[of "nat (- i)"] decimal_not_sign by simp
  qed
  with True show ?thesis by (simp add: py_str_def)
next
  case False
  have "py_strip (str_nat (nat i)) = str_nat (nat i)"
    unfolding py_strip_def
  proof (rule strip_id)
    show "str_nat (nat i) \<noteq> []" using str_nat_digits[of "nat i"] by simp
    show "\<not> py_isspace (hd (str_nat (nat i)))"
      using str_nat_ends(1)[of "nat i"] decimal_not_sign by simp
    show "\<not> py_isspace (last (str_nat (nat i)))"
      using str_nat_ends(2)[of "nat i"] decimal_not_sign by simp
  qed
  with False show ?thesis by (simp add: py_str_def)
qed

lemma validador_de_simps:
  "validador_de ''operacao'' = validar_operacao"
  "validador_de ''urgencia'' = validar_urgencia"
  by (simp_all add: validador_de_def VALIDADORES_def)

lemma normalizar_urgencia_values:
  "normalizar_campo ''urgencia'' ''alta'' = Inr ''alta''"
  "normalizar_campo ''urgencia'' ''media'' = Inr ''media''"
  "normalizar_campo ''urgencia'' ''baixa'' = Inr ''baixa''"
  "normalizar_campo ''operacao'' ''aluguel'' = Inr ''aluguel''"
  "py_lower ''alta'' = ''alta''" "py_lower ''baixa'' = ''baixa''"
  by code_simp+

section \<open>Properties of the specification\<close>

subsection \<open>Saving the lead\<close>

text \<open>
  C1, as the script has it. From a new session, after any runs of the script,
  \<open>salvar_lead\<close> has been called exactly once, with the lead, when the funnel is complete
  (\<open>step\<close> has reached \<open>len(PERGUNTAS)\<close>), and not at all before; the file of leads is what that
  one call made of the file the session began with. The runs after completion change
  neither. This holds because the script calls \<open>perguntar_proximo_campo\<close> only with the
  greeting and right after an accepted answer; the function itself has no guard.
\<close>

theorem lead_saved_once_per_session:
  "case runs e ins (clear_conversation, w0) of (s, w) \<Rightarrow>
     if step s = length PERGUNTAS
     then saved w = saved w0 @ [lead s] \<and> leads_file w = salvar_lead (lead s) (leads_file w0)
     else saved w = saved w0 \<and> leads_file w = leads_file w0"
proof -
  have "persistido w0 (clear_conversation, w0)"
    by (simp add: persistido_def clear_conversation_def length_PERGUNTAS)
  from runs_persistido[OF funil_inv_init this, of e ins] show ?thesis
    by (simp add: persistido_def)
qed


theorem lead_saved_once_per_session_witness:
  "case runs \<lparr>COMPANY_NAME = [], COMPANY_BLURB = []\<rparr>
     (map (\<lambda>t. \<lparr>texto_enviado = t, agora = 0, depois = 0\<rparr>)
        [''Ana Silva'', ''11987654321'', ''ana@ex.com'', ''1'', ''casa'', ''80'', ''2'', ''at'' @ [CHR 0xE9] @ '' 300 mil'', ''alta''])
     (clear_conversation, \<lparr>leads_file = Absent, slept = [], saved = []\<rparr>) of
   (s, w) \<Rightarrow> step s = length PERGUNTAS \<and> saved w = [lead s] \<and>
     leads_file w = salvar_lead (lead s) Absent"
proof -
  have "step (fst (runs \<lparr>COMPANY_NAME = [], COMPANY_BLURB = []\<rparr>
     (map (\<lambda>t. \<lparr>texto_enviado = t, agora = 0, depois = 0\<rparr>)
        [''Ana Silva'', ''11987654321'', ''ana@ex.com'', ''1'', ''casa'', ''80'', ''2'', ''at'' @ [CHR 0xE9] @ '' 300 mil'', ''alta''])
     (clear_conversation, \<lparr>leads_file = Absent, slept = [], saved = []\<rparr>))) = length PERGUNTAS"
    by code_simp
  with lead_saved_once_per_session[where e="\<lparr>COMPANY_NAME = [], COMPANY_BLURB = []\<rparr>" and ins="(map (\<lambda>t. \<lparr>texto_enviado = t, agora = 0, depois = 0\<rparr>)
        [''Ana Silva'', ''11987654321'', ''ana@ex.com'', ''1'', ''casa'', ''80'', ''2'', ''at'' @ [CHR 0xE9] @ '' 300 mil'', ''alta''])" and ?w0.0="\<lparr>leads_file = Absent, slept = [], saved = []\<rparr>"]
  show ?thesis by (auto split: prod.splits)
qed


text \<open>
  C1 as stated asks that the completion branch of the prompt operation does not persist
  again when it is invoked again after completion. It does: called once more in the
  completed session, \<open>perguntar_proximo_campo\<close> calls \<open>salvar_lead\<close> a second time with
  the same lead, and the workbook holds two rows for it: the row of the first call, as
  \<open>pd.read_excel\<close> read it back (the telephone, the area, the rooms and the price range
  as numbers), and the lead again.
\<close>

theorem perguntar_again_saves_again:
  "(case runs \<lparr>COMPANY_NAME = [], COMPANY_BLURB = []\<rparr>
     (map (\<lambda>t. \<lparr>texto_enviado = t, agora = 0, depois = 0\<rparr>)
        [''Ana Silva'', ''11987654321'', ''ana@ex.com'', ''1'', ''casa'', ''80'', ''2'', ''300'', ''alta''])
     (clear_conversation, \<lparr>leads_file = Absent, slept = [], saved = []\<rparr>) of
    (s, w) \<Rightarrow>
      step s = length PERGUNTAS \<and> length (saved w) = 1 \<and>
      length (saved (snd (perguntar_proximo_campo (s, w)))) = 2 \<and>
      saved (snd (perguntar_proximo_campo (s, w))) = [lead s, lead s] \<and>
      leads_file w = Workbook \<lparr>columns = map fst PERGUNTAS, rows = [map (apsnd Text) (lead s)]\<rparr> \<and>
      leads_file (snd (perguntar_proximo_campo (s, w))) =
        Workbook \<lparr>columns = map fst PERGUNTAS,
          rows = [[(''nome'', Text ''Ana Silva''), (''telefone'', Number 11987654321),
                   (''email'', Text ''ana@ex.com''), (''operacao'', Text ''compra''),
                   (''tipo_imovel'', Text ''casa''), (''metragem'', Number 80),
                   (''quartos'', Number 2), (''faixa_preco'', Number 300),
                   (''urgencia'', Text ''alta'')],
                  map (apsnd Text) (lead s)]\<rparr>)"
  by code_simp


subsection \<open>Rejected answers\<close>

text \<open>
  C2. While the funnel is incomplete and the current field is not the price range, a
  message that the field's validator rejects leaves the lead, the step and the file of
  leads as they were; the run raises nothing and appends to the transcript exactly three
  messages: the user's message, then the warning, whose code points are the warning sign
  (U+26A0 U+FE0F), a blank and the characters of the error text that \<open>mensagens_erro\<close>
  holds for the field, then the question that \<open>PERGUNTAS\<close> holds for the field, which is
  the message that \<open>perguntar_proximo_campo\<close> appends at this step. (The script applies
  the validator to the message after \<open>$\<close> has been escaped; \<open>validador_de_escapar\<close> shows
  that this accepts and rejects the same messages.)
\<close>

theorem rejected_answer_keeps_state:
  assumes "step s < length PERGUNTAS"
      and "texto_enviado i \<noteq> []"
      and "chave_de (step s) \<noteq> ''faixa_preco''"
      and "\<not> validador_de (chave_de (step s)) (texto_enviado i)"
  shows "case run e i (s, w) of (r, s', w') \<Rightarrow>
           r = None \<and> lead s' = lead s \<and> step s' = step s \<and> leads_file w' = leads_file w \<and>
           messages s' = messages (fst (saudacao e (s, w))) @
             [\<lparr>role = user, content = map of_char (escapar (texto_enviado i))\<rparr>,
              \<lparr>role = assistant,
               content = [0x26A0, 0xFE0F, 0x20] @ map of_char (erro_de (chave_de (step s)))\<rparr>,
              \<lparr>role = assistant, content = map of_char (pergunta_de (chave_de (step s)))\<rparr>] \<and>
           map_of mensagens_erro (chave_de (step s)) = Some (erro_de (chave_de (step s))) \<and>
           erro_de (chave_de (step s)) \<noteq> [] \<and>
           map_of PERGUNTAS (chave_de (step s)) = Some (pergunta_de (chave_de (step s))) \<and>
           pergunta_de (chave_de (step s)) \<noteq> [] \<and>
           messages (fst (perguntar_proximo_campo (s, w))) = messages s @
             [\<lparr>role = assistant, content = map of_char (pergunta_de (chave_de (step s)))\<rparr>]"
proof -
  have e: "map_of mensagens_erro (chave_de (step s)) = Some (erro_de (chave_de (step s)))"
    using assms(4) by (rule rejected_key_configured)
  have p: "map_of PERGUNTAS (chave_de (step s)) = Some (pergunta_de (chave_de (step s)))"
    using assms(1) by (rule pergunta_configured)
  have e0: "erro_de (chave_de (step s)) \<noteq> []"
    using e by (auto simp: mensagens_erro_def split: if_splits)
  have p0: "pergunta_de (chave_de (step s)) \<noteq> []"
    using p by (auto simp: PERGUNTAS_def split: if_splits)
  show ?thesis
    using assms e p e0 p0
    by (simp add: run_def saudacao_def processar_def funil_def rate_limit_def
        perguntar_proximo_campo_def say_def aviso_def cps_def ord_def Let_def
        validador_de_escapar split: prod.splits)
qed


theorem rejected_answer_keeps_state_witness:
  "step clear_conversation < length PERGUNTAS \<and>
   chave_de (step clear_conversation) = ''nome'' \<and>
   \<not> validador_de ''nome'' ''123'' \<and>
   (case run \<lparr>COMPANY_NAME = [], COMPANY_BLURB = []\<rparr> \<lparr>texto_enviado = ''123'', agora = 0, depois = 0\<rparr>
           (clear_conversation, \<lparr>leads_file = Absent, slept = [], saved = []\<rparr>) of
    (r, s', w') \<Rightarrow> r = None \<and> lead s' = [] \<and> step s' = 0 \<and> leads_file w' = Absent \<and>
       length (messages s') = 5 \<and>
       drop 2 (messages s') =
         [\<lparr>role = user, content = map of_char ''123''\<rparr>,
          \<lparr>role = assistant,
           content = [0x26A0, 0xFE0F, 0x20] @ map of_char ''Por favor, informe **nome e sobrenome**.''\<rparr>,
          \<lparr>role = assistant,
           content = map of_char (''Qual '' @ [CHR 0xE9] @ '' o seu nome completo?'')\<rparr>])"
proof -
  have h1: "step clear_conversation < length PERGUNTAS"
    by (simp add: clear_conversation_def length_PERGUNTAS)
  have h2: "texto_enviado \<lparr>texto_enviado = ''123'', agora = 0, depois = 0\<rparr> \<noteq> []" by simp
  have k: "chave_de (step clear_conversation) = ''nome''"
    by (simp add: clear_conversation_def chave_de_simps)
  have v: "\<not> validador_de ''nome'' ''123''" by code_simp
  have h3: "chave_de (step clear_conversation) \<noteq> ''faixa_preco''" by (simp add: k)
  have h4: "\<not> validador_de (chave_de (step clear_conversation))
      (texto_enviado \<lparr>texto_enviado = ''123'', agora = 0, depois = 0\<rparr>)"
    using v by (simp add: k)
  have m: "length (messages (fst (saudacao \<lparr>COMPANY_NAME = [], COMPANY_BLURB = []\<rparr>
      (clear_conversation, \<lparr>leads_file = Absent, slept = [], saved = []\<rparr>)))) = 2"
    by (simp add: saudacao_def perguntar_proximo_campo_def say_def clear_conversation_def
        length_PERGUNTAS)
  have x: "escapar ''123'' = ''123''" by code_simp
  have er: "erro_de ''nome'' = ''Por favor, informe **nome e sobrenome**.''"
    by (simp add: erro_de_def mensagens_erro_def)
  have pg: "pergunta_de ''nome'' = ''Qual '' @ [CHR 0xE9] @ '' o seu nome completo?''"
    by (simp add: pergunta_de_def PERGUNTAS_def)
  from rejected_answer_keeps_state[OF h1 h2 h3 h4, where e="\<lparr>COMPANY_NAME = [], COMPANY_BLURB = []\<rparr>"
      and w="\<lparr>leads_file = Absent, slept = [], saved = []\<rparr>"] h1 k v m
  show ?thesis by (auto simp: clear_conversation_def x er pg split: prod.splits)
qed


subsection \<open>The round trip\<close>

text \<open>
  C3. From a new session, nine runs that bring the nine answers of the example, at any
  times, end with the lead of the example, with \<open>step = len(PERGUNTAS)\<close> (the funnel is
  complete) and with that lead saved by one call of \<open>salvar_lead\<close>.
\<close>

theorem ana_silva_round_trip:
  assumes "map texto_enviado ins =
    [''Ana Silva'',
     ''11987654321'',
     ''ana@ex.com'',
     ''1'',
     ''casa'',
     ''80'',
     ''2'',
     ''at'' @ [CHR 0xE9] @ '' 300 mil'',
     ''alta'']"
  shows "case runs e ins (clear_conversation, w0) of (s, w) \<Rightarrow>
     lead s =
       [(''nome'', ''Ana Silva''),
        (''telefone'', ''11987654321''),
        (''email'', ''ana@ex.com''),
        (''operacao'', ''compra''),
        (''tipo_imovel'', ''casa''),
        (''metragem'', ''80''),
        (''quartos'', ''2''),
        (''faixa_preco'', ''at'' @ [CHR 0xE9] @ '' 300 mil''),
        (''urgencia'', ''alta'')] \<and>
     step s = length PERGUNTAS \<and>
     saved w = saved w0 @ [lead s] \<and>
     leads_file w = salvar_lead (lead s) (leads_file w0)"
proof -
  from assms obtain i1 i2 i3 i4 i5 i6 i7 i8 i9 where
    eq: "ins = [i1, i2, i3, i4, i5, i6, i7, i8, i9]"
    and t: "texto_enviado i1 = ''Ana Silva''" "texto_enviado i2 = ''11987654321''" "texto_enviado i3 = ''ana@ex.com''" "texto_enviado i4 = ''1''" "texto_enviado i5 = ''casa''" "texto_enviado i6 = ''80''" "texto_enviado i7 = ''2''" "texto_enviado i8 = ''at'' @ [CHR 0xE9] @ '' 300 mil''" "texto_enviado i9 = ''alta''"
    by (auto simp: map_eq_Cons_conv)
  have "\<exists>s' w'. run e i1 (clear_conversation, w0) = (None, s', w') \<and> step s' = Suc 0 \<and>
           lead s' = AList.update (''nome'') (''Ana Silva'') ([]) \<and> messages s' \<noteq> []"
    by (rule run_accept[where n=0 and t="''Ana Silva''"])
       (simp_all add: clear_conversation_def length_PERGUNTAS t chave_de_simps respostas_ana[simplified])
  then obtain s1 w1 where r1: "run e i1 (clear_conversation, w0) = (None, s1, w1)"
    and p1: "step s1 = 1" "lead s1 = [(''nome'', ''Ana Silva'')]" "messages s1 \<noteq> []"
    by auto
  have "\<exists>s' w'. run e i2 (s1, w1) = (None, s', w') \<and> step s' = Suc 1 \<and>
           lead s' = AList.update (''telefone'') (''11987654321'') ([(''nome'', ''Ana Silva'')]) \<and> messages s' \<noteq> []"
    by (rule run_accept[where n=1 and t="''11987654321''"])
       (simp_all add: p1 length_PERGUNTAS t chave_de_simps respostas_ana[simplified])
  then obtain s2 w2 where r2: "run e i2 (s1, w1) = (None, s2, w2)"
    and p2: "step s2 = 2" "lead s2 = [(''nome'', ''Ana Silva''), (''telefone'', ''11987654321'')]" "messages s2 \<noteq> []"
    by auto
  have "\<exists>s' w'. run e i3 (s2, w2) = (None, s', w') \<and> step s' = Suc 2 \<and>
           lead s' = AList.update (''email'') (''ana@ex.com'') ([(''nome'', ''Ana Silva''), (''telefone'', ''11987654321'')]) \<and> messages s' \<noteq> []"
    by (rule run_accept[where n=2 and t="''ana@ex.com''"])
       (simp_all add: p2 length_PERGUNTAS t chave_de_simps respostas_ana[simplified])
  then obtain s3 w3 where r3: "run e i3 (s2, w2) = (None, s3, w3)"
    and p3: "step s3 = 3" "lead s3 = [(''nome'', ''Ana Silva''), (''telefone'', ''11987654321''), (''email'', ''ana@ex.com'')]" "messages s3 \<noteq> []"
    by auto
  have "\<exists>s' w'. run e i4 (s3, w3) = (None, s', w') \<and> step s' = Suc 3 \<and>
           lead s' = AList.update (''operacao'') (''compra'') ([(''nome'', ''Ana Silva''), (''telefone'', ''11987654321''), (''email'', ''ana@ex.com'')]) \<and> messages s' \<noteq> []"
    by (rule run_accept[where n=3 and t="''1''"])
       (simp_all add: p3 length_PERGUNTAS t chave_de_simps respostas_ana[simplified])
  then obtain s4 w4 where r4: "run e i4 (s3, w3) = (None, s4, w4)"
    and p4: "step s4 = 4" "lead s4 = [(''nome'', ''Ana Silva''), (''telefone'', ''11987654321''), (''email'', ''ana@ex.com''), (''operacao'', ''compra'')]" "messages s4 \<noteq> []"
    by auto
  have "\<exists>s' w'. run e i5 (s4, w4) = (None, s', w') \<and> step s' = Suc 4 \<and>
           lead s' = AList.update (''tipo_imovel'') (''casa'') ([(''nome'', ''Ana Silva''), (''telefone'', ''11987654321''), (''email'', ''ana@ex.com''), (''operacao'', ''compra'')]) \<and> messages s' \<noteq> []"
    by (rule run_accept[where n=4 and t="''casa''"])
       (simp_all add: p4 length_PERGUNTAS t chave_de_simps respostas_ana[simplified])
  then obtain s5 w5 where r5: "run e i5 (s4, w4) = (None, s5, w5)"
    and p5: "step s5 = 5" "lead s5 = [(''nome'', ''Ana Silva''), (''telefone'', ''11987654321''), (''email'', ''ana@ex.com''), (''operacao'', ''compra''), (''tipo_imovel'', ''casa'')]" "messages s5 \<noteq> []"
    by auto
  have "\<exists>s' w'. run e i6 (s5, w5) = (None, s', w') \<and> step s' = Suc 5 \<and>
           lead s' = AList.update (''metragem'') (''80'') ([(''nome'', ''Ana Silva''), (''telefone'', ''11987654321''), (''email'', ''ana@ex.com''), (''operacao'', ''compra''), (''tipo_imovel'', ''casa'')]) \<and> messages s' \<noteq> []"
    by (rule run_accept[where n=5 and t="''80''"])
       (simp_all add: p5 length_PERGUNTAS t chave_de_simps respostas_ana[simplified])
  then obtain s6 w6 where r6: "run e i6 (s5, w5) = (None, s6, w6)"
    and p6: "step s6 = 6" "lead s6 = [(''nome'', ''Ana Silva''), (''telefone'', ''11987654321''), (''email'', ''ana@ex.com''), (''operacao'', ''compra''), (''tipo_imovel'', ''casa''), (''metragem'', ''80'')]" "messages s6 \<noteq> []"
    by auto
  have "\<exists>s' w'. run e i7 (s6, w6) = (None, s', w') \<and> step s' = Suc 6 \<and>
           lead s' = AList.update (''quartos'') (''2'') ([(''nome'', ''Ana Silva''), (''telefone'', ''11987654321''), (''email'', ''ana@ex.com''), (''operacao'', ''compra''), (''tipo_imovel'', ''casa''), (''metragem'', ''80'')]) \<and> messages s' \<noteq> []"
    by (rule run_accept[where n=6 and t="''2''"])
       (simp_all add: p6 length_PERGUNTAS t chave_de_simps respostas_ana[simplified])
  then obtain s7 w7 where r7: "run e i7 (s6, w6) = (None, s7, w7)"
    and p7: "step s7 = 7" "lead s7 = [(''nome'', ''Ana Silva''), (''telefone'', ''11987654321''), (''email'', ''ana@ex.com''), (''operacao'', ''compra''), (''tipo_imovel'', ''casa''), (''metragem'', ''80''), (''quartos'', ''2'')]" "messages s7 \<noteq> []"
    by auto
  have "\<exists>s' w'. run e i8 (s7, w7) = (None, s', w') \<and> step s' = Suc 7 \<and>
           lead s' = AList.update (''faixa_preco'') (''at'' @ [CHR 0xE9] @ '' 300 mil'') ([(''nome'', ''Ana Silva''), (''telefone'', ''11987654321''), (''email'', ''ana@ex.com''), (''operacao'', ''compra''), (''tipo_imovel'', ''casa''), (''metragem'', ''80''), (''quartos'', ''2'')]) \<and> messages s' \<noteq> []"
    by (rule run_accept[where n=7 and t="''at'' @ [CHR 0xE9] @ '' 300 mil''"])
       (simp_all add: p7 length_PERGUNTAS t chave_de_simps respostas_ana[simplified])
  then obtain s8 w8 where r8: "run e i8 (s7, w7) = (None, s8, w8)"
    and p8: "step s8 = 8" "lead s8 = [(''nome'', ''Ana Silva''), (''telefone'', ''11987654321''), (''email'', ''ana@ex.com''), (''operacao'', ''compra''), (''tipo_imovel'', ''casa''), (''metragem'', ''80''), (''quartos'', ''2''), (''faixa_preco'', ''at'' @ [CHR 0xE9] @ '' 300 mil'')]" "messages s8 \<noteq> []"
    by auto
  have "\<exists>s' w'. run e i9 (s8, w8) = (None, s', w') \<and> step s' = Suc 8 \<and>
           lead s' = AList.update (''urgencia'') (''alta'') ([(''nome'', ''Ana Silva''), (''telefone'', ''11987654321''), (''email'', ''ana@ex.com''), (''operacao'', ''compra''), (''tipo_imovel'', ''casa''), (''metragem'', ''80''), (''quartos'', ''2''), (''faixa_preco'', ''at'' @ [CHR 0xE9] @ '' 300 mil'')]) \<and> messages s' \<noteq> []"
    by (rule run_accept[where n=8 and t="''alta''"])
       (simp_all add: p8 length_PERGUNTAS t chave_de_simps respostas_ana[simplified])
  then obtain s9 w9 where r9: "run e i9 (s8, w8) = (None, s9, w9)"
    and p9: "step s9 = 9" "lead s9 = [(''nome'', ''Ana Silva''), (''telefone'', ''11987654321''), (''email'', ''ana@ex.com''), (''operacao'', ''compra''), (''tipo_imovel'', ''casa''), (''metragem'', ''80''), (''quartos'', ''2''), (''faixa_preco'', ''at'' @ [CHR 0xE9] @ '' 300 mil''), (''urgencia'', ''alta'')]" "messages s9 \<noteq> []"
    by auto
  have r: "runs e ins (clear_conversation, w0) = (s9, w9)"
    by (simp add: eq r1 r2 r3 r4 r5 r6 r7 r8 r9)
  have "persistido w0 (clear_conversation, w0)"
    by (simp add: persistido_def clear_conversation_def length_PERGUNTAS)
  from runs_persistido[OF funil_inv_init this, of e ins] p9
  show ?thesis
    by (simp add: r persistido_def length_PERGUNTAS)
qed


theorem ana_silva_round_trip_witness:
  "case runs \<lparr>COMPANY_NAME = [], COMPANY_BLURB = []\<rparr>
     (map (\<lambda>t. \<lparr>texto_enviado = t, agora = 0, depois = 0\<rparr>)
        [''Ana Silva'', ''11987654321'', ''ana@ex.com'', ''1'', ''casa'', ''80'', ''2'', ''at'' @ [CHR 0xE9] @ '' 300 mil'', ''alta''])
     (clear_conversation, \<lparr>leads_file = Absent, slept = [], saved = []\<rparr>) of
   (s, w) \<Rightarrow>
     lead s =
       [(''nome'', ''Ana Silva''),
        (''telefone'', ''11987654321''),
        (''email'', ''ana@ex.com''),
        (''operacao'', ''compra''),
        (''tipo_imovel'', ''casa''),
        (''metragem'', ''80''),
        (''quartos'', ''2''),
        (''faixa_preco'', ''at'' @ [CHR 0xE9] @ '' 300 mil''),
        (''urgencia'', ''alta'')] \<and>
     step s = 9 \<and> saved w = [lead s]"
proof -
  have "map texto_enviado
     (map (\<lambda>t. \<lparr>texto_enviado = t, agora = 0, depois = 0\<rparr>)
        [''Ana Silva'', ''11987654321'', ''ana@ex.com'', ''1'', ''casa'', ''80'', ''2'', ''at'' @ [CHR 0xE9] @ '' 300 mil'', ''alta'']) =
    [''Ana Silva'',
     ''11987654321'',
     ''ana@ex.com'',
     ''1'',
     ''casa'',
     ''80'',
     ''2'',
     ''at'' @ [CHR 0xE9] @ '' 300 mil'',
     ''alta'']"
    by simp
  from ana_silva_round_trip[OF this, where e="\<lparr>COMPANY_NAME = [], COMPANY_BLURB = []\<rparr>"
    and ?w0.0="\<lparr>leads_file = Absent, slept = [], saved = []\<rparr>"]
  show ?thesis by (auto simp: length_PERGUNTAS split: prod.splits)
qed


subsection \<open>Normalising twice\<close>

text \<open>
  C4, amended. For every key and every answer that the script accepts for it, if the
  normaliser returns a value then normalising that value returns it again, except for
  the key \<open>operacao\<close> with an answer that strips to \<open>1\<close>.
\<close>

theorem normalizar_campo_twice:
  assumes ac: "aceita chave x"
      and ne: "\<not> (chave = ''operacao'' \<and> py_strip x = ''1'')"
      and y: "normalizar_campo chave x = Inr y"
  shows "normalizar_campo chave y = Inr y"
proof -
  consider (op) "chave = ''operacao''" | (ur) "chave = ''urgencia''"
    | (nu) "chave \<in> set [''metragem'', ''quartos'']"
    | (ot) "chave \<noteq> ''operacao''" "chave \<noteq> ''urgencia''" "chave \<notin> set [''metragem'', ''quartos'']"
    by blast
  then show ?thesis
  proof cases
    case op
    with ne y have "y = ''aluguel''" by (simp add: normalizar_campo_def)
    with op show ?thesis by (simp add: normalizar_urgencia_values)
  next
    case ur
    with ac have "py_lower (py_strip x) \<in> set [''alta'', ''media'', ''m'' @ [CHR 0xE9] @ ''dia'', ''baixa'']"
      by (simp add: aceita_def validador_de_simps validar_urgencia_def)
    with ur y have "y = ''alta'' \<or> y = ''media'' \<or> y = ''baixa''"
      by (auto simp add: normalizar_campo_def)
    with ur show ?thesis by (auto simp: normalizar_urgencia_values)
  next
    case nu
    then have k: "chave \<noteq> ''operacao''" "chave \<noteq> ''urgencia''" by auto
    from y nu k obtain i where i: "py_int (py_strip x) = Inr i" "y = py_str i"
      by (auto simp add: normalizar_campo_def split: sum.splits)
    from nu k show ?thesis
      by (simp add: normalizar_campo_def i py_strip_py_str py_int_py_str)
  next
    case ot
    with y have "y = py_strip x" by (simp add: normalizar_campo_def)
    with ot show ?thesis by (simp add: normalizar_campo_def py_strip_idem)
  qed
qed


theorem normalizar_campo_twice_witness:
  "aceita ''metragem'' '' 0080 '' \<and> normalizar_campo ''metragem'' '' 0080 '' = Inr ''80'' \<and>
   normalizar_campo ''metragem'' ''80'' = Inr ''80''"
proof -
  have a: "aceita ''metragem'' '' 0080 ''" by code_simp
  have n: "\<not> (''metragem'' = ''operacao'' \<and> py_strip '' 0080 '' = ''1'')" by simp
  have y: "normalizar_campo ''metragem'' '' 0080 '' = Inr ''80''" by code_simp
  from normalizar_campo_twice[OF a n y] a y show ?thesis by simp
qed


text \<open>
  C4 as stated fails for \<open>operacao\<close>: the accepted answer \<open>1\<close> becomes \<open>compra\<close>, and
  \<open>compra\<close>, which is not \<open>1\<close>, becomes \<open>aluguel\<close>.
\<close>

theorem normalizar_campo_compra_twice:
  "aceita ''operacao'' ''1'' \<and> normalizar_campo ''operacao'' ''1'' = Inr ''compra'' \<and>
   normalizar_campo ''operacao'' ''compra'' = Inr ''aluguel'' \<and>
   normalizar_campo ''operacao'' ''compra'' \<noteq> normalizar_campo ''operacao'' ''1''"
  by code_simp


subsection \<open>The step and the lead\<close>

text \<open>
  C5. In every state reached from a new session by runs of the script, \<open>step\<close> is at most
  \<open>len(PERGUNTAS)\<close>, the keys of the lead are the first \<open>step\<close> keys of \<open>PERGUNTAS\<close> in
  order (so \<open>step\<close> is the number of keys of the lead), and once \<open>step\<close> has reached
  \<open>len(PERGUNTAS)\<close> a further run raises nothing, leaves the lead, the step and the file
  of leads as they are, calls \<open>salvar_lead\<close> no more and asks no question: the transcript
  gains the user's message and the closing reply only.
\<close>

theorem step_counts_lead_keys:
  "case runs e ins (clear_conversation, w0) of (s, w) \<Rightarrow>
     step s \<le> length PERGUNTAS \<and>
     map fst (lead s) = take (step s) (map fst PERGUNTAS) \<and>
     distinct (map fst (lead s)) \<and> length (lead s) = step s \<and>
     (step s \<ge> length PERGUNTAS \<longrightarrow>
        (\<forall>i. case run e i (s, w) of (r, s', w') \<Rightarrow>
           r = None \<and> lead s' = lead s \<and> step s' = step s \<and>
           leads_file w' = leads_file w \<and> saved w' = saved w \<and>
           messages s' = messages s @
             (if texto_enviado i = [] then []
              else [\<lparr>role = user, content = cps (escapar (texto_enviado i))\<rparr>,
                    \<lparr>role = assistant, content = resposta\<rparr>])))"
proof -
  obtain s w where sw: "runs e ins (clear_conversation, w0) = (s, w)"
    by (cases "runs e ins (clear_conversation, w0)")
  have inv: "funil_inv s" using runs_inv[OF funil_inv_init, of e ins w0] sw by simp
  then have a: "step s \<le> length PERGUNTAS" and b: "map fst (lead s) = take (step s) (map fst PERGUNTAS)"
    and c: "messages s = [] \<longrightarrow> step s = 0"
    by (simp_all add: funil_inv_def)
  have d: "distinct (map fst (lead s))" using b distinct_keys by simp
  have "length (map fst (lead s)) = step s" using a b by simp
  then have l: "length (lead s) = step s" by simp
  have t: "step s \<ge> length PERGUNTAS \<longrightarrow>
        (\<forall>i. case run e i (s, w) of (r, s', w') \<Rightarrow>
           r = None \<and> lead s' = lead s \<and> step s' = step s \<and>
           leads_file w' = leads_file w \<and> saved w' = saved w \<and>
           messages s' = messages s @
             (if texto_enviado i = [] then []
              else [\<lparr>role = user, content = cps (escapar (texto_enviado i))\<rparr>,
                    \<lparr>role = assistant, content = resposta\<rparr>]))"
  proof (intro impI allI)
    fix i
    assume "step s \<ge> length PERGUNTAS"
    then have n: "\<not> step s < length PERGUNTAS" and m: "messages s \<noteq> []"
      using c by (auto simp: length_PERGUNTAS)
    show "case run e i (s, w) of (r, s', w') \<Rightarrow>
           r = None \<and> lead s' = lead s \<and> step s' = step s \<and>
           leads_file w' = leads_file w \<and> saved w' = saved w \<and>
           messages s' = messages s @
             (if texto_enviado i = [] then []
              else [\<lparr>role = user, content = cps (escapar (texto_enviado i))\<rparr>,
                    \<lparr>role = assistant, content = resposta\<rparr>])"
      by (simp add: run_after_complete[OF n m] say_simps rate_limit_frame)
  qed
  show ?thesis unfolding sw using a b d l t by blast
qed


theorem step_counts_lead_keys_witness:
  "case runs \<lparr>COMPANY_NAME = [], COMPANY_BLURB = []\<rparr>
     (map (\<lambda>t. \<lparr>texto_enviado = t, agora = 0, depois = 0\<rparr>)
        [''Ana Silva'', ''11987654321'', ''ana@ex.com'', ''1'', ''casa'', ''80'', ''2'', ''at'' @ [CHR 0xE9] @ '' 300 mil'', ''alta''])
     (clear_conversation, \<lparr>leads_file = Absent, slept = [], saved = []\<rparr>) of
   (s, w) \<Rightarrow> step s = 9 \<and> length (lead s) = 9 \<and>
     (case run \<lparr>COMPANY_NAME = [], COMPANY_BLURB = []\<rparr> \<lparr>texto_enviado = ''oi'', agora = 0, depois = 0\<rparr> (s, w) of
      (r, s', w') \<Rightarrow> r = None \<and> lead s' = lead s \<and> step s' = 9 \<and> saved w' = saved w)"
proof -
  obtain s w where sw: "runs \<lparr>COMPANY_NAME = [], COMPANY_BLURB = []\<rparr>
     (map (\<lambda>t. \<lparr>texto_enviado = t, agora = 0, depois = 0\<rparr>)
        [''Ana Silva'', ''11987654321'', ''ana@ex.com'', ''1'', ''casa'', ''80'', ''2'', ''at'' @ [CHR 0xE9] @ '' 300 mil'', ''alta''])
     (clear_conversation, \<lparr>leads_file = Absent, slept = [], saved = []\<rparr>) = (s, w)"
    by (cases "runs \<lparr>COMPANY_NAME = [], COMPANY_BLURB = []\<rparr>
     (map (\<lambda>t. \<lparr>texto_enviado = t, agora = 0, depois = 0\<rparr>)
        [''Ana Silva'', ''11987654321'', ''ana@ex.com'', ''1'', ''casa'', ''80'', ''2'', ''at'' @ [CHR 0xE9] @ '' 300 mil'', ''alta''])
     (clear_conversation, \<lparr>leads_file = Absent, slept = [], saved = []\<rparr>)")
  have "step (fst (runs \<lparr>COMPANY_NAME = [], COMPANY_BLURB = []\<rparr>
     (map (\<lambda>t. \<lparr>texto_enviado = t, agora = 0, depois = 0\<rparr>)
        [''Ana Silva'', ''11987654321'', ''ana@ex.com'', ''1'', ''casa'', ''80'', ''2'', ''at'' @ [CHR 0xE9] @ '' 300 mil'', ''alta''])
     (clear_conversation, \<lparr>leads_file = Absent, slept = [], saved = []\<rparr>))) = 9"
    by code_simp
  then have st: "step s = 9" unfolding sw fst_conv .
  from step_counts_lead_keys[where e="\<lparr>COMPANY_NAME = [], COMPANY_BLURB = []\<rparr>" and ins="(map (\<lambda>t. \<lparr>texto_enviado = t, agora = 0, depois = 0\<rparr>)
        [''Ana Silva'', ''11987654321'', ''ana@ex.com'', ''1'', ''casa'', ''80'', ''2'', ''at'' @ [CHR 0xE9] @ '' 300 mil'', ''alta''])" and ?w0.0="\<lparr>leads_file = Absent, slept = [], saved = []\<rparr>"]
  have a: "length (lead s) = step s"
    and b: "step s \<ge> length PERGUNTAS \<longrightarrow>
        (\<forall>i. case run \<lparr>COMPANY_NAME = [], COMPANY_BLURB = []\<rparr> i (s, w) of (r, s', w') \<Rightarrow>
           r = None \<and> lead s' = lead s \<and> step s' = step s \<and>
           leads_file w' = leads_file w \<and> saved w' = saved w \<and>
           messages s' = messages s @
             (if texto_enviado i = [] then []
              else [\<lparr>role = user, content = cps (escapar (texto_enviado i))\<rparr>,
                    \<lparr>role = assistant, content = resposta\<rparr>]))"
    unfolding sw by simp_all
  from b st have "\<forall>i. case run \<lparr>COMPANY_NAME = [], COMPANY_BLURB = []\<rparr> i (s, w) of (r, s', w') \<Rightarrow>
           r = None \<and> lead s' = lead s \<and> step s' = step s \<and>
           leads_file w' = leads_file w \<and> saved w' = saved w \<and>
           messages s' = messages s @
             (if texto_enviado i = [] then []
              else [\<lparr>role = user, content = cps (escapar (texto_enviado i))\<rparr>,
                    \<lparr>role = assistant, content = resposta\<rparr>])"
    by (simp add: length_PERGUNTAS)
  then have "case run \<lparr>COMPANY_NAME = [], COMPANY_BLURB = []\<rparr> \<lparr>texto_enviado = ''oi'', agora = 0, depois = 0\<rparr> (s, w) of (r, s', w') \<Rightarrow>
           r = None \<and> lead s' = lead s \<and> step s' = step s \<and>
           leads_file w' = leads_file w \<and> saved w' = saved w \<and>
           messages s' = messages s @
             (if texto_enviado \<lparr>texto_enviado = ''oi'', agora = 0, depois = 0\<rparr> = [] then []
              else [\<lparr>role = user, content = cps (escapar (texto_enviado \<lparr>texto_enviado = ''oi'', agora = 0, depois = 0\<rparr>))\<rparr>,
                    \<lparr>role = assistant, content = resposta\<rparr>])"
    by (rule spec)
  with a st show ?thesis unfolding sw by (auto split: prod.splits)
qed


subsection \<open>Digits that are not decimal\<close>

text \<open>
  C6 fails on the code. The superscript two (U+00B2) passes \<open>str.isdigit\<close>, so
  \<open>validar_numero\<close> accepts it, and \<open>int\<close> raises \<open>ValueError\<close> on it: at the field
  \<open>metragem\<close>, reached by five accepted answers, the run ends with the exception.
\<close>

theorem superscript_digit_raises:
  "validar_numero [CHR 0xB2] \<and>
   py_int [CHR 0xB2] = Inl ValueError \<and>
   normalizar_campo ''metragem'' [CHR 0xB2] = Inl ValueError \<and>
   (case runs \<lparr>COMPANY_NAME = [], COMPANY_BLURB = []\<rparr>
     (map (\<lambda>t. \<lparr>texto_enviado = t, agora = 0, depois = 0\<rparr>)
        [''Ana Silva'', ''11987654321'', ''ana@ex.com'', ''1'', ''casa''])
     (clear_conversation, \<lparr>leads_file = Absent, slept = [], saved = []\<rparr>) of
    (s, w) \<Rightarrow>
      step s = 5 \<and> chave_de (step s) = ''metragem'' \<and>
      fst (run \<lparr>COMPANY_NAME = [], COMPANY_BLURB = []\<rparr>
             \<lparr>texto_enviado = [CHR 0xB2], agora = 0, depois = 0\<rparr> (s, w)) = Some ValueError)"
  by code_simp


subsection \<open>The case of the property type\<close>

text \<open>
  C7 fails on the code. \<open>CASA\<close> is accepted for \<open>tipo_imovel\<close>, its lowercased form is
  \<open>casa\<close>, and the normaliser returns and the script stores \<open>CASA\<close>.
\<close>

theorem tipo_imovel_keeps_case:
  "validar_tipo_imovel ''CASA'' \<and>
   py_lower (py_strip ''CASA'') = ''casa'' \<and>
   normalizar_campo ''tipo_imovel'' ''CASA'' = Inr ''CASA'' \<and>
   lead (fst (runs \<lparr>COMPANY_NAME = [], COMPANY_BLURB = []\<rparr>
     (map (\<lambda>t. \<lparr>texto_enviado = t, agora = 0, depois = 0\<rparr>)
        [''Ana Silva'', ''11987654321'', ''ana@ex.com'', ''1'', ''CASA''])
     (clear_conversation, \<lparr>leads_file = Absent, slept = [], saved = []\<rparr>))) =
     [(''nome'', ''Ana Silva''), (''telefone'', ''11987654321''), (''email'', ''ana@ex.com''),
      (''operacao'', ''compra''), (''tipo_imovel'', ''CASA'')]"
  by code_simp


subsection \<open>The price range\<close>

text \<open>
  C8 fails on the code. The answer \<open>R$ 300 mil\<close> to the price range has no blank to strip,
  and the lead stores it with a backslash before the \<open>$\<close>: the script escapes the message
  for display and then normalises and stores the escaped message.
\<close>

theorem faixa_preco_stores_escaped:
  "normalizar_campo ''faixa_preco'' (escapar ''R$ 300 mil'') = Inr (''R'' @ [CHR 0x5C] @ ''$ 300 mil'') \<and>
   py_strip ''R$ 300 mil'' = ''R$ 300 mil'' \<and>
   lead (fst (runs \<lparr>COMPANY_NAME = [], COMPANY_BLURB = []\<rparr>
     (map (\<lambda>t. \<lparr>texto_enviado = t, agora = 0, depois = 0\<rparr>)
        [''Ana Silva'', ''11987654321'', ''ana@ex.com'', ''1'', ''casa'', ''80'', ''2'', ''R$ 300 mil''])
     (clear_conversation, \<lparr>leads_file = Absent, slept = [], saved = []\<rparr>))) =
     [(''nome'', ''Ana Silva''), (''telefone'', ''11987654321''), (''email'', ''ana@ex.com''),
      (''operacao'', ''compra''), (''tipo_imovel'', ''casa''), (''metragem'', ''80''),
      (''quartos'', ''2''), (''faixa_preco'', ''R'' @ [CHR 0x5C] @ ''$ 300 mil'')]"
  by code_simp


subsection \<open>The rate limit\<close>





subsection \<open>The file of leads\<close>

text \<open>
  C10. The rows that the file holds are not preserved when a lead is appended. A first
  visitor answers with the telephone \<open>01987654321\<close> (eleven digits, accepted) and the
  price range \<open>N/A\<close>; \<open>salvar_lead\<close> creates the workbook with that lead as its only row,
  every cell text. A second visitor completes the funnel; \<open>salvar_lead\<close> reads the
  workbook with \<open>pd.read_excel\<close>, which infers the types of the columns, appends the new
  lead and writes the result. In the file the row of the first visitor now has the number
  1987654321 as telephone (the leading zero is lost), an empty cell as price range, and
  the area and the rooms as numbers; the row of the second visitor is text.
\<close>

theorem stored_row_changes_on_append:
  "(case runs \<lparr>COMPANY_NAME = [], COMPANY_BLURB = []\<rparr>
     (map (\<lambda>t. \<lparr>texto_enviado = t, agora = 0, depois = 0\<rparr>)
        [''Rui Sousa'', ''01987654321'', ''rui@ex.com'', ''2'', ''casa'', ''80'', ''2'', ''N/A'', ''alta''])
     (clear_conversation, \<lparr>leads_file = Absent, slept = [], saved = []\<rparr>) of
    (s1, w1) \<Rightarrow>
      lead s1 =
        [(''nome'', ''Rui Sousa''), (''telefone'', ''01987654321''), (''email'', ''rui@ex.com''),
         (''operacao'', ''aluguel''), (''tipo_imovel'', ''casa''), (''metragem'', ''80''),
         (''quartos'', ''2''), (''faixa_preco'', ''N/A''), (''urgencia'', ''alta'')] \<and>
      leads_file w1 =
        Workbook \<lparr>columns = map fst PERGUNTAS, rows = [map (apsnd Text) (lead s1)]\<rparr> \<and>
      (case runs \<lparr>COMPANY_NAME = [], COMPANY_BLURB = []\<rparr>
         (map (\<lambda>t. \<lparr>texto_enviado = t, agora = 0, depois = 0\<rparr>)
            [''Ana Silva'', ''11987654321'', ''ana@ex.com'', ''1'', ''outro'', ''120'', ''3'',
             ''at'' @ [CHR 0xE9] @ '' 300 mil'', ''baixa''])
         (clear_conversation, w1) of
       (s2, w2) \<Rightarrow>
         saved w2 = [lead s1, lead s2] \<and>
         leads_file w2 = salvar_lead (lead s2) (leads_file w1) \<and>
         leads_file w2 =
           Workbook \<lparr>columns = map fst PERGUNTAS,
             rows = [[(''nome'', Text ''Rui Sousa''), (''telefone'', Number 1987654321),
                      (''email'', Text ''rui@ex.com''), (''operacao'', Text ''aluguel''),
                      (''tipo_imovel'', Text ''casa''), (''metragem'', Number 80),
                      (''quartos'', Number 2), (''urgencia'', Text ''alta'')],
                     map (apsnd Text) (lead s2)]\<rparr>))"
  by code_simp


section \<open>Further properties\<close>

subsection \<open>The decimal form of a string of decimal digits\<close>

lemma str_nat_snoc:
  "d < 10 \<Longrightarrow> str_nat (n * 10 + d) =
     (if n = 0 then [char_of (48 + d)] else str_nat n @ [char_of (48 + d)])"
  by (subst str_nat.simps) simp

lemma decimal_ord: "py_isdecimal c \<Longrightarrow> 48 \<le> ord c \<and> ord c \<le> 57"
  by (simp add: py_isdecimal_def Let_def)

lemma char_of_digit_val: "py_isdecimal c \<Longrightarrow> char_of (48 + digit_val c) = c"
proof -
  assume "py_isdecimal c"
  then have "48 \<le> ord c" using decimal_ord by blast
  then have "48 + digit_val c = ord c" by (simp add: digit_val_def)
  then show ?thesis by (simp add: ord_def)
qed

lemma digit_val_bound: "py_isdecimal c \<Longrightarrow> digit_val c < 10"
  using decimal_ord[of c] unfolding digit_val_def by arith

lemma digit_val_zero: "py_isdecimal c \<Longrightarrow> (digit_val c = 0) = (c = CHR ''0'')"
proof -
  assume "py_isdecimal c"
  then have "48 \<le> ord c" using decimal_ord by blast
  then have "(digit_val c = 0) = (ord c = 48)" unfolding digit_val_def by arith
  also have "\<dots> = (ord c = ord CHR ''0'')" by (simp add: ord_def)
  also have "\<dots> = (c = CHR ''0'')" by (rule ord_inj)
  finally show ?thesis .
qed

lemma decimal_value:
  assumes "list_all py_isdecimal ds"
  shows "(dropWhile (\<lambda>c. c = CHR ''0'') ds = [] \<longrightarrow>
           foldl (\<lambda>a d. a * 10 + digit_val d) 0 ds = 0) \<and>
         (dropWhile (\<lambda>c. c = CHR ''0'') ds \<noteq> [] \<longrightarrow>
           foldl (\<lambda>a d. a * 10 + digit_val d) 0 ds \<noteq> 0 \<and>
           str_nat (foldl (\<lambda>a d. a * 10 + digit_val d) 0 ds) = dropWhile (\<lambda>c. c = CHR ''0'') ds)"
  using assms
proof (induction ds rule: rev_induct)
  case Nil
  show ?case by simp
next
  case (snoc d ds)
  then have d: "py_isdecimal d" and ds: "list_all py_isdecimal ds" by simp_all
  note ih = snoc.IH[OF ds]
  let ?v = "foldl (\<lambda>a d. a * 10 + digit_val d) 0 ds"
  show ?case
  proof (cases "dropWhile (\<lambda>c. c = CHR ''0'') ds = []")
    case True
    then have z: "\<forall>x\<in>set ds. x = CHR ''0''" by (simp add: dropWhile_eq_Nil_conv)
    from True ih have v: "?v = 0" by simp
    from z have dw: "dropWhile (\<lambda>c. c = CHR ''0'') (ds @ [d]) = dropWhile (\<lambda>c. c = CHR ''0'') [d]"
      by (simp add: dropWhile_append1 dropWhile_append2)
    show ?thesis
      using v d str_nat_snoc[of "digit_val d" 0]
      by (simp add: dw digit_val_zero digit_val_bound char_of_digit_val)
  next
    case False
    with ih have v: "?v \<noteq> 0" and s: "str_nat ?v = dropWhile (\<lambda>c. c = CHR ''0'') ds" by simp_all
    from False have dw: "dropWhile (\<lambda>c. c = CHR ''0'') (ds @ [d]) = dropWhile (\<lambda>c. c = CHR ''0'') ds @ [d]"
      by (auto simp: dropWhile_append dropWhile_eq_Nil_conv)
    show ?thesis
      using v s d str_nat_snoc[of "digit_val d" ?v] False
      by (simp add: dw digit_val_bound char_of_digit_val)
  qed
qed


lemma py_int_decimal:
  assumes "v \<noteq> []" and "list_all py_isdecimal v"
  shows "py_int v = Inr (int (foldl (\<lambda>a d. a * 10 + digit_val d) 0 v))"
proof -
  from assms have h: "py_isdecimal (hd v)" and l: "py_isdecimal (last v)"
    by (auto simp: list_all_iff)
  have t: "rev (dropWhile int_isspace (rev (dropWhile int_isspace v))) = v"
    using assms(1) h l decimal_not_sign by (intro strip_id) auto
  have s: "hd v \<noteq> CHR ''-''" "hd v \<noteq> CHR ''+''" using h decimal_not_sign by auto
  have d: "int_digits False 0 v = Some (foldl (\<lambda>a d. a * 10 + digit_val d) 0 v)"
    using int_digits_append[OF assms(2), of False 0 "[]"] assms(1) by simp
  show ?thesis
    by (simp only: py_int_def t) (simp add: s d)
qed

lemma str_nat_0: "str_nat 0 = ''0''"
  by code_simp

text \<open>
  On an answer that strips to a non-empty string of the digits \<open>0\<close> to \<open>9\<close>, the normaliser
  of \<open>metragem\<close> and \<open>quartos\<close> returns, and returns that string without its leading zeros
  (\<open>0\<close> for a string of zeros).
\<close>

theorem normalizar_numero_decimal:
  assumes "chave \<in> set [''metragem'', ''quartos'']"
      and "py_strip x \<noteq> []" and "list_all py_isdecimal (py_strip x)"
  shows "normalizar_campo chave x =
     Inr (if dropWhile (\<lambda>c. c = CHR ''0'') (py_strip x) = [] then ''0''
          else dropWhile (\<lambda>c. c = CHR ''0'') (py_strip x))"
proof -
  from assms(1) have k: "chave \<noteq> ''operacao''" "chave \<noteq> ''urgencia''" by auto
  have "normalizar_campo chave x =
      Inr (str_nat (foldl (\<lambda>a d. a * 10 + digit_val d) 0 (py_strip x)))"
    using assms(1) k by (simp add: normalizar_campo_def py_int_decimal[OF assms(2,3)] py_str_def)
  then show ?thesis
    using decimal_value[OF assms(3)] by (auto simp: str_nat_0)
qed

theorem normalizar_numero_decimal_witness:
  "list_all py_isdecimal (py_strip '' 0080 '') \<and>
   normalizar_campo ''metragem'' '' 0080 '' = Inr ''80'' \<and>
   normalizar_campo ''quartos'' ''000'' = Inr ''0''"
proof -
  have a: "''metragem'' \<in> set [''metragem'', ''quartos'']" "''quartos'' \<in> set [''metragem'', ''quartos'']"
    by simp_all
  have b: "py_strip '' 0080 '' \<noteq> []" "py_strip ''000'' \<noteq> []" by code_simp+
  have c: "list_all py_isdecimal (py_strip '' 0080 '')" "list_all py_isdecimal (py_strip ''000'')"
    by code_simp+
  have d: "py_strip '' 0080 '' = ''0080''" "py_strip ''000'' = ''000''" by code_simp+
  from normalizar_numero_decimal[OF a(1) b(1) c(1)] normalizar_numero_decimal[OF a(2) b(2) c(2)] c(1)
  show ?thesis by (simp add: d)
qed

subsection \<open>The price range is free text\<close>

text \<open>
  At the field \<open>faixa_preco\<close> every message is accepted: the run raises nothing, the step
  advances by one and the lead stores the escaped message, stripped.
\<close>

theorem faixa_preco_accepts_any:
  assumes "step s < length PERGUNTAS" and "chave_de (step s) = ''faixa_preco''"
      and "texto_enviado i \<noteq> []"
  shows "case run e i (s, w) of (r, s', w') \<Rightarrow>
     r = None \<and> step s' = step s + 1 \<and>
     lead s' = AList.update ''faixa_preco'' (py_strip (escapar (texto_enviado i))) (lead s)"
proof -
  have "\<exists>s' w'. run e i (s, w) = (None, s', w') \<and> step s' = Suc (step s) \<and>
           lead s' = AList.update ''faixa_preco'' (py_strip (escapar (texto_enviado i))) (lead s)
           \<and> messages s' \<noteq> []"
    using assms
    by (intro run_accept[where t="texto_enviado i"])
       (simp_all add: aceita_def normalizar_campo_def)
  then show ?thesis by auto
qed

theorem faixa_preco_accepts_any_witness:
  "case runs \<lparr>COMPANY_NAME = [], COMPANY_BLURB = []\<rparr>
     (map (\<lambda>t. \<lparr>texto_enviado = t, agora = 0, depois = 0\<rparr>)
        [''Ana Silva'', ''11987654321'', ''ana@ex.com'', ''1'', ''casa'', ''80'', ''2''])
     (clear_conversation, \<lparr>leads_file = Absent, slept = [], saved = []\<rparr>) of
   (s, w) \<Rightarrow> step s = 7 \<and>
     (case run \<lparr>COMPANY_NAME = [], COMPANY_BLURB = []\<rparr> \<lparr>texto_enviado = '' ?! '', agora = 0, depois = 0\<rparr> (s, w) of
      (r, s', w') \<Rightarrow> r = None \<and> step s' = 8 \<and> map_of (lead s') ''faixa_preco'' = Some ''?!'')"
proof -
  obtain s w where sw: "runs \<lparr>COMPANY_NAME = [], COMPANY_BLURB = []\<rparr>
     (map (\<lambda>t. \<lparr>texto_enviado = t, agora = 0, depois = 0\<rparr>)
        [''Ana Silva'', ''11987654321'', ''ana@ex.com'', ''1'', ''casa'', ''80'', ''2''])
     (clear_conversation, \<lparr>leads_file = Absent, slept = [], saved = []\<rparr>) = (s, w)"
    by (cases "runs \<lparr>COMPANY_NAME = [], COMPANY_BLURB = []\<rparr>
     (map (\<lambda>t. \<lparr>texto_enviado = t, agora = 0, depois = 0\<rparr>)
        [''Ana Silva'', ''11987654321'', ''ana@ex.com'', ''1'', ''casa'', ''80'', ''2''])
     (clear_conversation, \<lparr>leads_file = Absent, slept = [], saved = []\<rparr>)")
  have "step (fst (runs \<lparr>COMPANY_NAME = [], COMPANY_BLURB = []\<rparr>
     (map (\<lambda>t. \<lparr>texto_enviado = t, agora = 0, depois = 0\<rparr>)
        [''Ana Silva'', ''11987654321'', ''ana@ex.com'', ''1'', ''casa'', ''80'', ''2''])
     (clear_conversation, \<lparr>leads_file = Absent, slept = [], saved = []\<rparr>))) = 7"
    by code_simp
  then have st: "step s = 7" unfolding sw fst_conv .
  have h1: "step s < length PERGUNTAS" by (simp add: st length_PERGUNTAS)
  have h2: "chave_de (step s) = ''faixa_preco''" by (simp add: st chave_de_simps)
  have h3: "texto_enviado \<lparr>texto_enviado = '' ?! '', agora = 0, depois = 0\<rparr> \<noteq> []" by simp
  have v: "py_strip (escapar '' ?! '') = ''?!''" by code_simp
  from faixa_preco_accepts_any[OF h1 h2 h3, where e="\<lparr>COMPANY_NAME = [], COMPANY_BLURB = []\<rparr>" and w=w] st v
  show ?thesis unfolding sw by (auto split: prod.splits simp: update_conv')
qed

subsection \<open>A rejected answer, then an accepted one\<close>

text \<open>
  From a new session the answer \<open>123\<close> to the name leaves the step at 0 and gives one
  warning; the answer \<open>Ana Silva\<close> after it advances the step to 1, and the transcript
  still holds one warning.
\<close>

theorem invalid_then_valid_name:
  "(case runs \<lparr>COMPANY_NAME = [], COMPANY_BLURB = []\<rparr>
      [\<lparr>texto_enviado = ''123'', agora = 0, depois = 0\<rparr>]
      (clear_conversation, \<lparr>leads_file = Absent, slept = [], saved = []\<rparr>) of
    (s, w) \<Rightarrow> step s = 0 \<and> lead s = [] \<and>
      length (filter (\<lambda>m. content m =
          [0x26A0, 0xFE0F, 0x20] @ map of_char ''Por favor, informe **nome e sobrenome**.'')
        (messages s)) = 1) \<and>
   (case runs \<lparr>COMPANY_NAME = [], COMPANY_BLURB = []\<rparr>
      [\<lparr>texto_enviado = ''123'', agora = 0, depois = 0\<rparr>,
       \<lparr>texto_enviado = ''Ana Silva'', agora = 0, depois = 0\<rparr>]
      (clear_conversation, \<lparr>leads_file = Absent, slept = [], saved = []\<rparr>) of
    (s, w) \<Rightarrow> step s = 1 \<and> lead s = [(''nome'', ''Ana Silva'')] \<and>
      length (filter (\<lambda>m. take 2 (content m) = [0x26A0, 0xFE0F]) (messages s)) = 1)"
  by code_simp

subsection \<open>What an append keeps\<close>

text \<open>
  When the file is absent, and when it is there and cannot be read, \<open>salvar_lead\<close> writes
  a workbook whose columns are the keys of the lead and whose only row is the lead, every
  cell text.
\<close>

theorem salvar_lead_creates_or_overwrites:
  assumes "distinct (map fst l)"
  shows "salvar_lead l Absent = Workbook \<lparr>columns = map fst l, rows = [map (apsnd Text) l]\<rparr> \<and>
         salvar_lead l Unreadable = Workbook \<lparr>columns = map fst l, rows = [map (apsnd Text) l]\<rparr>"
  using assms
  by (simp add: salvar_lead_def exists_path_def read_excel_def DataFrame_def distinct_remdups_id)


theorem salvar_lead_creates_or_overwrites_witness:
  "distinct (map fst [(''nome'', ''Ana Silva''), (''email'', ''ana@ex.com'')]) \<and>
   salvar_lead [(''nome'', ''Ana Silva''), (''email'', ''ana@ex.com'')] Absent =
     Workbook \<lparr>columns = [''nome'', ''email''],
               rows = [[(''nome'', Text ''Ana Silva''), (''email'', Text ''ana@ex.com'')]]\<rparr> \<and>
   salvar_lead [(''nome'', ''Ana Silva''), (''email'', ''ana@ex.com'')] Unreadable =
     Workbook \<lparr>columns = [''nome'', ''email''],
               rows = [[(''nome'', Text ''Ana Silva''), (''email'', Text ''ana@ex.com'')]]\<rparr>"
proof -
  have d: "distinct (map fst [(''nome'', ''Ana Silva''), (''email'', ''ana@ex.com'')])" by simp
  from salvar_lead_creates_or_overwrites[OF d] d show ?thesis by simp
qed


lemma keys_map_filter:
  "fst ` set (List.map_filter (\<lambda>(c, col). map_option (Pair c) (g col)) zs) \<subseteq> fst ` set zs"
  by (induction zs) (auto simp: map_filter_simps split: option.splits)

lemma keys_of_read_row:
  "set (map fst (List.map_filter (\<lambda>(c, col). map_option (Pair c) (col ! i)) (zip xs ys))) \<subseteq> set xs"
proof -
  have "fst ` set (List.map_filter (\<lambda>(c, col). map_option (Pair c) (col ! i)) (zip xs ys))
        \<subseteq> fst ` set (zip xs ys)"
    by (rule keys_map_filter[where g="\<lambda>col. col ! i"])
  also have "\<dots> \<subseteq> set xs" by (auto dest: set_zip_leftD)
  finally show ?thesis by simp
qed

text \<open>
  When the file holds a table, \<open>salvar_lead\<close> writes a table with the columns of the file
  first, then the keys of the lead that are no column of the file; it has one row for
  every row of the file, in a column of the file each, and the lead, every cell text, as
  the last row. (What the cells of the earlier rows hold is what \<open>read_excel\<close> made of
  them.)
\<close>

theorem salvar_lead_appends_last:
  assumes "distinct (map fst l)"
  shows "\<exists>rs. length rs = length (rows d) \<and>
           list_all (\<lambda>r. set (map fst r) \<subseteq> set (columns d)) rs \<and>
           salvar_lead l (Workbook d) =
             Workbook \<lparr>columns = columns d @ filter (\<lambda>c. c \<notin> set (columns d)) (map fst l),
                       rows = rs @ [map (apsnd Text) l]\<rparr>"
proof -
  obtain a where a: "read_excel (Workbook d) = Inr a" "columns a = columns d"
      "length (rows a) = length (rows d)"
      "list_all (\<lambda>r. set (map fst r) \<subseteq> set (columns d)) (rows a)"
    using keys_of_read_row[where xs="columns d"]
    by (auto simp: read_excel_def Let_def list_all_iff)
  show ?thesis
    using a assms
    by (intro exI[of _ "rows a"])
       (simp add: salvar_lead_def exists_path_def pd_concat_def DataFrame_def distinct_remdups_id)
qed


theorem salvar_lead_appends_last_witness:
  "distinct (map fst [(''nome'', ''Ana Silva''), (''email'', ''ana@ex.com'')]) \<and>
   salvar_lead [(''nome'', ''Ana Silva''), (''email'', ''ana@ex.com'')]
     (Workbook \<lparr>columns = [''nome'', ''telefone''],
        rows = [[(''nome'', Text ''Rui Sousa''), (''telefone'', Text ''(11) 98765-4321'')]]\<rparr>) =
     Workbook \<lparr>columns = [''nome'', ''telefone'', ''email''],
       rows = [[(''nome'', Text ''Rui Sousa''), (''telefone'', Text ''(11) 98765-4321'')],
               [(''nome'', Text ''Ana Silva''), (''email'', Text ''ana@ex.com'')]]\<rparr>"
proof -
  have d: "distinct (map fst [(''nome'', ''Ana Silva''), (''email'', ''ana@ex.com'')])" by simp
  have r: "read_excel (Workbook \<lparr>columns = [''nome'', ''telefone''],
        rows = [[(''nome'', Text ''Rui Sousa''), (''telefone'', Text ''(11) 98765-4321'')]]\<rparr>) =
      Inr \<lparr>columns = [''nome'', ''telefone''],
        rows = [[(''nome'', Text ''Rui Sousa''), (''telefone'', Text ''(11) 98765-4321'')]]\<rparr>"
    by code_simp
  from salvar_lead_appends_last[OF d, of "\<lparr>columns = [''nome'', ''telefone''],
        rows = [[(''nome'', Text ''Rui Sousa''), (''telefone'', Text ''(11) 98765-4321'')]]\<rparr>"] d r
  show ?thesis
    by (simp add: salvar_lead_def exists_path_def pd_concat_def DataFrame_def)
qed

end
